theory Spec2Isabelle
  imports Main "HOL-Library.Sublist"
begin

section \<open>Strings\<close>

text \<open>
  Identifier names, node identities and labels are JavaScript strings; they are modelled
  as \<open>string\<close> (a list of 8-bit characters, i.e. ASCII source text).
  \<open>s.startsWith(p)\<close>, \<open>s.endsWith(p)\<close> and \<open>s.includes(p)\<close> are the library's
  \<open>prefix\<close>, \<open>suffix\<close> and (contiguous) \<open>sublist\<close> with the arguments in the
  source's order.
\<close>

definition startsWith :: "string \<Rightarrow> string \<Rightarrow> bool" where
  "startsWith s p = prefix p s"

definition endsWith :: "string \<Rightarrow> string \<Rightarrow> bool" where
  "endsWith s p = suffix p s"

definition strIncludes :: "string \<Rightarrow> string \<Rightarrow> bool" where
  "strIncludes s p = sublist p s"

text \<open>The character class \<open>[A-Z]\<close>.\<close>

definition isUpperAZ :: "char \<Rightarrow> bool" where
  "isUpperAZ c = (65 \<le> (of_char c :: nat) \<and> (of_char c :: nat) \<le> 90)"

text \<open>\<open>toLowerCase\<close> on ASCII text: only \<open>A\<close> to \<open>Z\<close> change.\<close>

definition lowerChar :: "char \<Rightarrow> char" where
  "lowerChar c = (if isUpperAZ c then char_of ((of_char c :: nat) + 32) else c)"

definition toLowerCase :: "string \<Rightarrow> string" where
  "toLowerCase s = map lowerChar s"

text \<open>
  A JavaScript value used as a condition: \<open>null\<close>, \<open>undefined\<close> and the empty string
  are falsy, every other string is truthy.
\<close>

fun truthy :: "string option \<Rightarrow> bool" where
  "truthy None = False"
| "truthy (Some s) = (s \<noteq> [])"

text \<open>Decimal rendering of a number inside a template literal.\<close>

definition digitChar :: "nat \<Rightarrow> char" where
  "digitChar d = char_of (48 + d)"

fun showNat :: "nat \<Rightarrow> string" where
  "showNat n = (if n < 10 then [digitChar n] else showNat (n div 10) @ [digitChar (n mod 10)])"

declare showNat.simps [simp del]

text \<open>
  \<open>Array.from(new Set(xs))\<close>: duplicates are dropped and the first occurrence of each
  value keeps its place.
\<close>

fun uniqueInto :: "'a list \<Rightarrow> 'a list \<Rightarrow> 'a list" where
  "uniqueInto acc [] = acc"
| "uniqueInto acc (x # xs) = uniqueInto (if x \<in> set acc then acc else acc @ [x]) xs"

definition arrayFromSet :: "'a list \<Rightarrow> 'a list" where
  "arrayFromSet xs = uniqueInto [] xs"

text \<open>\<open>xs.map((x, index) => f(x, index))\<close>.\<close>

definition mapIndexed :: "('a \<Rightarrow> nat \<Rightarrow> 'b) \<Rightarrow> 'a list \<Rightarrow> 'b list" where
  "mapIndexed f xs = map (\<lambda>(index, x). f x index) (enumerate 0 xs)"

text \<open>
  \<open>xs.forEach(x => { ...; if (!found) return; edges.push(e) })\<close>: the edges pushed, in
  order; \<open>f x = None\<close> is the early return.
\<close>

primrec pushEach :: "('a \<Rightarrow> 'b option) \<Rightarrow> 'a list \<Rightarrow> 'b list" where
  "pushEach f [] = []"
| "pushEach f (x # xs) = (case f x of None \<Rightarrow> pushEach f xs | Some e \<Rightarrow> e # pushEach f xs)"

section \<open>Facts recovered by the analysis\<close>

text \<open>
  Source locations (\<open>definedAt\<close>) and the raw source text are carried through the
  program untouched and read by nothing below; the records leave them out.
\<close>

datatype HookKind =
  UseState | UseRef | UseReducer | UseEffect | UseLayoutEffect
  | UseCallback | UseMemo | Zustand | ReactQuery | Custom

datatype StateScope = Local | Global | External

text \<open>A hook kind is a string literal in the source; this is the literal.\<close>

fun hookKindName :: "HookKind \<Rightarrow> string" where
  "hookKindName UseState = ''useState''"
| "hookKindName UseRef = ''useRef''"
| "hookKindName UseReducer = ''useReducer''"
| "hookKindName UseEffect = ''useEffect''"
| "hookKindName UseLayoutEffect = ''useLayoutEffect''"
| "hookKindName UseCallback = ''useCallback''"
| "hookKindName UseMemo = ''useMemo''"
| "hookKindName Zustand = ''zustand''"
| "hookKindName ReactQuery = ''react-query''"
| "hookKindName Custom = ''custom''"

record AnalyzedHook =
  hook_id :: string
  hook_name :: string
  hookKind :: HookKind
  scope :: StateScope
  hook_importSource :: "string option"

record EffectDependency =
  dep_name :: string
  isGlobal :: bool

record AnalyzedEffect =
  effect_id :: string
  effect_hookKind :: HookKind
  dependencies :: "EffectDependency list"
  setters :: "string list"
  refs :: "string list"

record AnalyzedCallback =
  cb_id :: string
  cb_name :: "string option"
  cb_dependencies :: "string list"
  cb_setters :: "string list"

record AnalyzedJsxNode =
  jsx_id :: string
  component :: string
  depth :: nat
  props :: "string list"

text \<open>The \<open>Mapping\<close> namespace's element fact adds the parent's identity.\<close>

record MappingJsxNode = AnalyzedJsxNode +
  parentId :: "string option"

record ComponentAnalysis =
  ca_fileName :: "string option"
  ca_componentName :: "string option"
  ca_hooks :: "AnalyzedHook list"
  ca_effects :: "AnalyzedEffect list"
  ca_callbacks :: "AnalyzedCallback list"
  ca_jsxNodes :: "AnalyzedJsxNode list"
  ca_exportedComponents :: "string list"
  ca_defaultExport :: "string option"
  ca_errors :: "string list"

record MappingResult =
  mr_fileName :: "string option"
  mr_componentName :: "string option"
  mr_hooks :: "AnalyzedHook list"
  mr_effects :: "AnalyzedEffect list"
  mr_callbacks :: "AnalyzedCallback list"
  mr_jsxNodes :: "MappingJsxNode list"
  mr_exportedComponents :: "string list"
  mr_defaultExport :: "string option"
  mr_errors :: "string list"
  calledVariableNames :: "string list"

section \<open>Primary component selection\<close>

record ExportInfo =
  defaultExport :: "string option"
  namedExports :: "string list"

text \<open>
  \<open>fileName.replace(/\.[^/.]+$/, "")\<close>: the leftmost position where a dot is followed,
  up to the end of the string, by one or more characters other than \<open>/\<close> and \<open>.\<close> is
  where the match starts; the match is removed. Without a match the string is unchanged.
\<close>

definition extChar :: "char \<Rightarrow> bool" where
  "extChar c = (c \<noteq> CHR ''/'' \<and> c \<noteq> CHR ''.'')"

fun stripExtension :: "string \<Rightarrow> string" where
  "stripExtension [] = []"
| "stripExtension (c # cs) =
     (if c = CHR ''.'' \<and> cs \<noteq> [] \<and> list_all extChar cs then []
      else c # stripExtension cs)"

definition pickPrimaryComponent :: "ExportInfo \<Rightarrow> string option \<Rightarrow> string option" where
  "pickPrimaryComponent exportInfo fileName_opt =
     (if truthy (defaultExport exportInfo) then defaultExport exportInfo
      else if length (namedExports exportInfo) = 1 then Some (namedExports exportInfo ! 0)
      else
        (let matched =
               (case fileName_opt of
                  None \<Rightarrow> None
                | Some fname \<Rightarrow>
                    if fname = [] then None
                    else find (\<lambda>name. name = stripExtension fname)
                           (namedExports exportInfo))
         in if truthy matched then matched
            else (case namedExports exportInfo of [] \<Rightarrow> None | name # _ \<Rightarrow> Some name)))"

section \<open>Hook classification\<close>

text \<open>\<open>importSource && importSource.includes(p)\<close>, for an import origin that may be absent.\<close>

fun sourceIncludes :: "string option \<Rightarrow> string \<Rightarrow> bool" where
  "sourceIncludes None p = False"
| "sourceIncludes (Some src) p = (src \<noteq> [] \<and> strIncludes src p)"

definition classifyHookKind :: "string \<Rightarrow> string option \<Rightarrow> HookKind" where
  "classifyHookKind calleeName importSource =
     (if calleeName = ''useState'' then UseState
      else if calleeName = ''useRef'' then UseRef
      else if calleeName = ''useReducer'' then UseReducer
      else if calleeName = ''useEffect'' then UseEffect
      else if calleeName = ''useLayoutEffect'' then UseLayoutEffect
      else if calleeName = ''useCallback'' then UseCallback
      else if calleeName = ''useMemo'' then UseMemo
      else if startsWith calleeName ''use'' \<and> endsWith calleeName ''Store''
              \<and> sourceIncludes importSource ''zustand''
        then Zustand
      else if (sourceIncludes importSource ''reactQuery''
                \<or> sourceIncludes importSource ''@tanstack/react-query'')
              \<and> strIncludes (toLowerCase calleeName) ''mutation''
        then ReactQuery
      else if (sourceIncludes importSource ''reactQuery''
                \<or> sourceIncludes importSource ''@tanstack/react-query'')
              \<and> strIncludes (toLowerCase calleeName) ''query''
        then ReactQuery
      else Custom)"

section \<open>The body walker's visitors\<close>

text \<open>
  The syntax tree comes from an external parser and is walked by an external traversal
  library; the model keeps the shapes the visitors test for. An expression is a bare
  identifier or anything else; a callee is an identifier, a member access (its object,
  and its property's name when the property is an identifier) or anything else.
\<close>

datatype Expr = Identifier string | OtherExpr

datatype Callee = IdentifierCallee string | MemberCallee Expr "string option" | OtherCallee

text \<open>
  An argument of a hook call: an array literal with its elements, a function (arrow or
  function expression) with the call and member-access nodes that a traversal of its body
  visits, in visiting order, or anything else.
\<close>

datatype Visited = CallExpression Callee | MemberExpression Expr

datatype Arg = ArrayExpression "Expr list" | FunctionArg "Visited list" | OtherArg

text \<open>\<open>args[i]\<close>, which is \<open>undefined\<close> past the end.\<close>

definition argAt :: "Arg list \<Rightarrow> nat \<Rightarrow> Arg option" where
  "argAt args i = (if i < length args then Some (args ! i) else None)"

text \<open>\<open>/^set[A-Z]/.test(name)\<close>.\<close>

fun isSetterName :: "string \<Rightarrow> bool" where
  "isSetterName (a # b # c # d # rest) =
     (a = CHR ''s'' \<and> b = CHR ''e'' \<and> c = CHR ''t'' \<and> isUpperAZ d)"
| "isSetterName _ = False"

definition identifierNames :: "Expr list \<Rightarrow> string list" where
  "identifierNames els = pushEach (\<lambda>el. case el of Identifier n \<Rightarrow> Some n | OtherExpr \<Rightarrow> None) els"

definition depsElements :: "Arg option \<Rightarrow> Expr list" where
  "depsElements depsArg = (case depsArg of Some (ArrayExpression els) \<Rightarrow> els | _ \<Rightarrow> [])"

definition bodyVisits :: "Arg option \<Rightarrow> Visited list" where
  "bodyVisits cbArg = (case cbArg of Some (FunctionArg vs) \<Rightarrow> vs | _ \<Rightarrow> [])"

definition directSetter :: "Visited \<Rightarrow> string option" where
  "directSetter v =
     (case v of
        CallExpression (IdentifierCallee n) \<Rightarrow> if isSetterName n then Some n else None
      | _ \<Rightarrow> None)"

definition mutateCall :: "Visited \<Rightarrow> string option" where
  "mutateCall v =
     (case v of
        CallExpression (MemberCallee (Identifier obj) (Some prop)) \<Rightarrow>
          if prop = ''mutate'' \<or> prop = ''mutateAsync'' then Some (obj @ ''.'' @ prop) else None
      | _ \<Rightarrow> None)"

definition refUse :: "Visited \<Rightarrow> string option" where
  "refUse v =
     (case v of
        MemberExpression (Identifier obj) \<Rightarrow> if endsWith obj ''Ref'' then Some obj else None
      | _ \<Rightarrow> None)"

definition analyzeEffectCall ::
  "Arg list \<Rightarrow> string \<Rightarrow> HookKind \<Rightarrow> string set \<Rightarrow> AnalyzedEffect" where
  "analyzeEffectCall args effectId kind globalStateNames =
     (let cbArg = argAt args 0; depsArg = argAt args 1;
          deps = map (\<lambda>n. \<lparr>dep_name = n, isGlobal = (n \<in> globalStateNames)\<rparr>)
                   (identifierNames (depsElements depsArg));
          setterCalls = pushEach (\<lambda>v. case directSetter v of Some n \<Rightarrow> Some n
                                        | None \<Rightarrow> mutateCall v) (bodyVisits cbArg);
          refUses = pushEach refUse (bodyVisits cbArg)
      in \<lparr>effect_id = effectId, effect_hookKind = kind, dependencies = deps,
          setters = arrayFromSet setterCalls, refs = arrayFromSet refUses\<rparr>)"

text \<open>\<open>parentName\<close>: the identifier the call is bound to, when it initialises a simple binding.\<close>

definition analyzeUseCallbackCall :: "Arg list \<Rightarrow> string \<Rightarrow> string option \<Rightarrow> AnalyzedCallback" where
  "analyzeUseCallbackCall args callbackId parentName =
     (let cbArg = argAt args 0; depsArg = argAt args 1
      in \<lparr>cb_id = callbackId, cb_name = parentName,
          cb_dependencies = arrayFromSet (identifierNames (depsElements depsArg)),
          cb_setters = arrayFromSet (pushEach directSetter (bodyVisits cbArg))\<rparr>)"

text \<open>
  The walker's accumulators. A binding pattern is an identifier, an array pattern (each
  element an identifier or not) or an object pattern (each property's value an identifier
  or not).
\<close>

datatype Pattern =
  IdentifierPattern string
  | ArrayPattern "string option list"
  | ObjectPattern "string option list"
  | OtherPattern

record Walk =
  w_hooks :: "AnalyzedHook list"
  w_effects :: "AnalyzedEffect list"
  w_callbacks :: "AnalyzedCallback list"
  w_globalStateNames :: "string set"

definition patternNames :: "Pattern \<Rightarrow> string list" where
  "patternNames pat =
     (case pat of
        IdentifierPattern n \<Rightarrow> [n]
      | ArrayPattern els \<Rightarrow> pushEach (\<lambda>el. el) els
      | ObjectPattern ps \<Rightarrow> pushEach (\<lambda>pr. pr) ps
      | OtherPattern \<Rightarrow> [])"

definition hookScope :: "HookKind \<Rightarrow> StateScope" where
  "hookScope kind = (if kind = Zustand \<or> kind = ReactQuery then Global else Local)"

definition pushHook :: "HookKind \<Rightarrow> string option \<Rightarrow> Walk \<Rightarrow> string \<Rightarrow> Walk" where
  "pushHook kind source w name =
     w\<lparr>w_hooks := w_hooks w @
          [\<lparr>hook_id = ''hook-'' @ showNat (length (w_hooks w) + 1), hook_name = name,
            hookKind = kind, scope = hookScope kind, hook_importSource = source\<rparr>],
       w_globalStateNames :=
          (if hookScope kind = Global then insert name (w_globalStateNames w)
           else w_globalStateNames w)\<rparr>"

text \<open>
  The import map is a plain object whose own properties are the imported local names;
  \<open>importMap\<close> below holds those own properties. \<open>importMap[localName] ?? null\<close> also
  finds what every object inherits from \<open>Object.prototype\<close>: for one of the names below
  that is not imported, the lookup gives the inherited member, a function or an object
  and not a string. \<open>__proto__\<close> never becomes an own property by assignment of a
  string, so its lookup always gives the prototype object.
\<close>

datatype ImportValue = Missing | Source string | Inherited

definition objectPrototypeNames :: "string list" where
  "objectPrototypeNames =
     [''constructor'', ''toString'', ''toLocaleString'', ''valueOf'', ''hasOwnProperty'',
      ''isPrototypeOf'', ''propertyIsEnumerable'', ''__proto__'', ''__defineGetter__'',
      ''__defineSetter__'', ''__lookupGetter__'', ''__lookupSetter__'']"

definition lookupImport :: "(string \<rightharpoonup> string) \<Rightarrow> string \<Rightarrow> ImportValue" where
  "lookupImport importMap localName =
     (if localName = ''__proto__'' then Inherited
      else case importMap localName of
             Some src \<Rightarrow> Source src
           | None \<Rightarrow> if localName \<in> set objectPrototypeNames then Inherited else Missing)"

text \<open>The import origin stored in a hook's \<open>meta\<close>, when it is a string.\<close>

fun sourceOf :: "ImportValue \<Rightarrow> string option" where
  "sourceOf Missing = None"
| "sourceOf (Source src) = Some src"
| "sourceOf Inherited = None"

text \<open>
  The classifier as the walker calls it. With a string or \<open>null\<close> it is
  \<open>classifyHookKind\<close>. An inherited member is truthy and has no \<open>includes\<close> method: the
  seven exact names return before the origin is looked at, and for every other name the
  first package test that is reached calls \<open>importSource.includes\<close> and throws a
  \<open>TypeError\<close>.
\<close>

datatype error = TypeError

definition builtinHookNames :: "string list" where
  "builtinHookNames =
     [''useState'', ''useRef'', ''useReducer'', ''useEffect'', ''useLayoutEffect'',
      ''useCallback'', ''useMemo'']"

fun classifyImported :: "string \<Rightarrow> ImportValue \<Rightarrow> error + HookKind" where
  "classifyImported calleeName Missing = Inr (classifyHookKind calleeName None)"
| "classifyImported calleeName (Source src) = Inr (classifyHookKind calleeName (Some src))"
| "classifyImported calleeName Inherited =
     (if calleeName \<in> set builtinHookNames then Inr (classifyHookKind calleeName None)
      else Inl TypeError)"

text \<open>
  The \<open>VariableDeclarator\<close> visitor: \<open>init\<close> is the callee of the initialising call, and
  absent when the initialiser is not a call. The visitor returns the walk it leaves, or
  the error it throws.
\<close>

definition visitVariableDeclarator ::
  "(string \<rightharpoonup> string) \<Rightarrow> Callee option \<Rightarrow> Pattern \<Rightarrow> Walk \<Rightarrow> error + Walk" where
  "visitVariableDeclarator importMap init pat w =
     (case init of
        Some (IdentifierCallee localName) \<Rightarrow>
          (case classifyImported localName (lookupImport importMap localName) of
             Inl err \<Rightarrow> Inl err
           | Inr kind \<Rightarrow>
               Inr (foldl (pushHook kind (sourceOf (lookupImport importMap localName)))
                      w (patternNames pat)))
      | _ \<Rightarrow> Inr w)"

text \<open>The \<open>CallExpression\<close> visitor.\<close>

definition visitCallExpression ::
  "(string \<rightharpoonup> string) \<Rightarrow> Callee \<Rightarrow> Arg list \<Rightarrow> string option \<Rightarrow> Walk \<Rightarrow> error + Walk" where
  "visitCallExpression importMap callee args parentName w =
     (case callee of
        IdentifierCallee localName \<Rightarrow>
          (case classifyImported localName (lookupImport importMap localName) of
             Inl err \<Rightarrow> Inl err
           | Inr kind \<Rightarrow>
               if kind = UseEffect \<or> kind = UseLayoutEffect
               then Inr (w\<lparr>w_effects := w_effects w @
                       [analyzeEffectCall args (''effect-'' @ showNat (length (w_effects w) + 1))
                          kind (w_globalStateNames w)]\<rparr>)
               else if kind = UseCallback
               then Inr (w\<lparr>w_callbacks := w_callbacks w @
                       [analyzeUseCallbackCall args
                          (''callback-'' @ showNat (length (w_callbacks w) + 1)) parentName]\<rparr>)
               else Inr w)
      | _ \<Rightarrow> Inr w)"

section \<open>The element tree\<close>

text \<open>
  An element's name is an identifier, a member chain or a namespaced name. An attribute
  value is captured when it is an expression container around a bare identifier.
\<close>

datatype JsxName =
  JSXIdentifier string
  | JSXMemberExpression JsxName string
  | JSXNamespacedName string string

datatype JsxAttr = JSXAttribute Expr | JSXAttributeStatic | JSXSpreadAttribute

text \<open>
  A node of the tree under the component's body is an element, with its name, its
  attributes and its child nodes, or any other node with its child nodes. (Elements
  nested inside attribute values are not represented.)
\<close>

datatype Node = JSXElement JsxName "JsxAttr list" "Node list" | OtherNode "Node list"

fun isJSXElement :: "Node \<Rightarrow> bool" where
  "isJSXElement (JSXElement nm attrs cs) = True"
| "isJSXElement (OtherNode cs) = False"

fun memberParts :: "JsxName \<Rightarrow> string list \<Rightarrow> string list" where
  "memberParts (JSXMemberExpression obj prop) parts =
     (case obj of
        JSXIdentifier n \<Rightarrow> n # prop # parts
      | _ \<Rightarrow> memberParts obj (prop # parts))"
| "memberParts nm parts = parts"

fun joinDot :: "string list \<Rightarrow> string" where
  "joinDot [] = []"
| "joinDot [x] = x"
| "joinDot (x # y # ys) = x @ ''.'' @ joinDot (y # ys)"

fun getJsxName :: "JsxName \<Rightarrow> string" where
  "getJsxName (JSXIdentifier n) = n"
| "getJsxName (JSXMemberExpression obj prop) = joinDot (memberParts (JSXMemberExpression obj prop) [])"
| "getJsxName (JSXNamespacedName ns n) = ns @ '':'' @ n"

definition propIdentifiers :: "JsxAttr list \<Rightarrow> string list" where
  "propIdentifiers attrs =
     pushEach (\<lambda>attr. case attr of JSXAttribute (Identifier n) \<Rightarrow> Some n | _ \<Rightarrow> None) attrs"

text \<open>
  \<open>path.traverse(visitor)\<close> calls the visitor on every node below \<open>path\<close> (not on
  \<open>path\<close> itself), parents before children and siblings in order, and goes on into a
  node's own subtree after the visitor has returned from it. \<open>below\<close> lists those nodes
  in that order, each with its parent.
\<close>

fun below :: "Node \<Rightarrow> (Node \<times> Node) list" where
  "below (JSXElement nm attrs cs) =
     concat (map (\<lambda>c. (JSXElement nm attrs cs, c) # below c) cs)"
| "below (OtherNode cs) = concat (map (\<lambda>c. (OtherNode cs, c) # below c) cs)"

lemma below_smaller: "(p, c) \<in> set (below n) \<Longrightarrow> size c < size n"
proof (induction n arbitrary: p c)
  case (JSXElement nm attrs cs)
  then obtain k where k: "k \<in> set cs" "(p, c) = (JSXElement nm attrs cs, k) \<or> (p, c) \<in> set (below k)"
    by auto
  have "size k < size (JSXElement nm attrs cs)"
    using k(1) by (simp add: less_Suc_eq_le size_list_estimation')
  moreover have "size c \<le> size k"
    using k JSXElement.IH [of k p c] by auto
  ultimately show ?case by simp
next
  case (OtherNode cs)
  then obtain k where k: "k \<in> set cs" "(p, c) = (OtherNode cs, k) \<or> (p, c) \<in> set (below k)"
    by auto
  have "size k < size (OtherNode cs)"
    using k(1) by (simp add: less_Suc_eq_le size_list_estimation')
  moreover have "size c \<le> size k"
    using k OtherNode.IH [of k p c] by auto
  ultimately show ?case by simp
qed

function traverseJsx :: "Node \<Rightarrow> nat \<Rightarrow> AnalyzedJsxNode list \<Rightarrow> AnalyzedJsxNode list" where
  "traverseJsx (JSXElement nm attrs cs) d result =
     foldl (\<lambda>res pc. if isJSXElement (snd pc) then traverseJsx (snd pc) (d + 1) res else res)
       (result @
          [\<lparr>jsx_id = ''jsx-'' @ showNat (length result + 1), component = getJsxName nm,
            depth = d, props = arrayFromSet (propIdentifiers attrs)\<rparr>])
       (below (JSXElement nm attrs cs))"
| "traverseJsx (OtherNode cs) d result = result"
  by pat_completeness auto
termination
  by (relation "measure (\<lambda>(n, d, result). size n)")
    (auto simp del: below.simps dest: below_smaller)

definition analyzeJsxTree :: "Node \<Rightarrow> AnalyzedJsxNode list \<Rightarrow> AnalyzedJsxNode list" where
  "analyzeJsxTree rootPath result =
     foldl (\<lambda>res pc. if isJSXElement (snd pc) \<and> \<not> isJSXElement (fst pc)
                      then traverseJsx (snd pc) 0 res else res)
       result (below rootPath)"

section \<open>Graph model\<close>

datatype GraphNodeKind = Independent | State | Effect | Variable | Jsx | ExternalNode

datatype GraphEdgeKind = Flow | StateDependency | StateMutation | ExternalEdge

text \<open>
  A node's \<open>meta\<close> is an untyped bag in the source; the four shapes the assembler puts
  in it are the four constructors.
\<close>

datatype NodeMeta =
  HookMeta HookKind StateScope
  | EffectMeta AnalyzedEffect
  | CallbackMeta AnalyzedCallback
  | JsxMeta nat "string list"

record GraphNode =
  node_id :: string
  node_label :: string
  node_kind :: GraphNodeKind
  node_x :: int
  node_y :: int
  node_width :: int
  node_height :: int
  node_meta :: NodeMeta

record EdgeEndpoint =
  nodeId :: string
  ep_x :: int
  ep_y :: int

record GraphEdge =
  edge_id :: string
  edge_from :: EdgeEndpoint
  edge_to :: EdgeEndpoint
  edge_kind :: GraphEdgeKind
  edge_label :: "string option"

record ColX =
  col_independent :: int
  col_state :: int
  col_variable :: int
  col_effect :: int
  col_jsx :: int

record GraphLayout =
  nodes :: "GraphNode list"
  edges :: "GraphEdge list"
  width :: int
  height :: int
  colX :: ColX

record Item =
  item_id :: string
  item_label :: string
  item_meta :: NodeMeta

record JsxLayoutItem = Item +
  item_depth :: nat

definition buildColumnX :: ColX where
  "buildColumnX =
     (let base = 80; gap = 220
      in \<lparr>col_independent = base, col_state = base + gap, col_variable = base + gap * 2,
          col_effect = base + gap * 3, col_jsx = base + gap * 4\<rparr>)"

text \<open>The node kind as it is spliced into a node identity.\<close>

fun kindName :: "GraphNodeKind \<Rightarrow> string" where
  "kindName Independent = ''independent''"
| "kindName State = ''state''"
| "kindName Effect = ''effect''"
| "kindName Variable = ''variable''"
| "kindName Jsx = ''jsx''"
| "kindName ExternalNode = ''external''"

text \<open>The node literal shared by the column layout and the depth layout.\<close>

definition mkNode :: "GraphNodeKind \<Rightarrow> 'a Item_scheme \<Rightarrow> int \<Rightarrow> int \<Rightarrow> GraphNode" where
  "mkNode kind item x y =
     \<lparr>node_id = kindName kind @ ''-'' @ item_id item, node_label = item_label item,
      node_kind = kind, node_x = x, node_y = y, node_width = 120, node_height = 32,
      node_meta = item_meta item\<rparr>"

definition layoutColumnNodes ::
  "'a Item_scheme list \<Rightarrow> GraphNodeKind \<Rightarrow> int \<Rightarrow> int \<Rightarrow> int \<Rightarrow> GraphNode list" where
  "layoutColumnNodes items kind x startY gapY =
     mapIndexed (\<lambda>item index. mkNode kind item x (startY + int index * gapY)) items"

text \<open>
  The edge literal: every edge of the source starts at the right edge of its source node
  and ends at the left edge of its destination node. Node widths are always 120, so
  \<open>width / 2\<close> is the integer 60.
\<close>

definition mkEdge ::
  "string \<Rightarrow> GraphNode \<Rightarrow> GraphNode \<Rightarrow> GraphEdgeKind \<Rightarrow> string option \<Rightarrow> GraphEdge" where
  "mkEdge eid fromNode toNode kind label =
     \<lparr>edge_id = eid,
      edge_from = \<lparr>nodeId = node_id fromNode,
                   ep_x = node_x fromNode + node_width fromNode div 2,
                   ep_y = node_y fromNode\<rparr>,
      edge_to = \<lparr>nodeId = node_id toNode,
                 ep_x = node_x toNode - node_width toNode div 2,
                 ep_y = node_y toNode\<rparr>,
      edge_kind = kind, edge_label = label\<rparr>"

subsection \<open>Items of the four columns\<close>

definition independentItems :: "AnalyzedHook list \<Rightarrow> Item list" where
  "independentItems hs =
     map (\<lambda>h. \<lparr>item_id = hook_id h, item_label = hook_name h,
               item_meta = HookMeta (hookKind h) (scope h)\<rparr>)
       (filter (\<lambda>h. hookKind h = UseRef) hs)"

definition stateItems :: "AnalyzedHook list \<Rightarrow> Item list" where
  "stateItems hs =
     map (\<lambda>h. \<lparr>item_id = hook_id h,
               item_label = (if scope h = Global then hook_name h @ '' (global)''
                             else hook_name h),
               item_meta = HookMeta (hookKind h) (scope h)\<rparr>)
       (filter (\<lambda>h. hookKind h \<in> set [UseState, Zustand, ReactQuery]) hs)"

definition effectItems :: "AnalyzedEffect list \<Rightarrow> AnalyzedCallback list \<Rightarrow> Item list" where
  "effectItems es cbs =
     map (\<lambda>e. \<lparr>item_id = effect_id e,
               item_label = hookKindName (effect_hookKind e),
               item_meta = EffectMeta e\<rparr>) es
     @ map (\<lambda>cb. \<lparr>item_id = cb_id cb,
                  item_label = (case cb_name cb of None \<Rightarrow> ''callback'' | Some n \<Rightarrow> n),
                  item_meta = CallbackMeta cb\<rparr>) cbs"

definition jsxItems :: "'a AnalyzedJsxNode_scheme list \<Rightarrow> Item list" where
  "jsxItems js =
     map (\<lambda>j. \<lparr>item_id = jsx_id j, item_label = component j,
               item_meta = JsxMeta (depth j) (props j)\<rparr>) js"

definition jsxLayoutItems :: "'a AnalyzedJsxNode_scheme list \<Rightarrow> JsxLayoutItem list" where
  "jsxLayoutItems js =
     map (\<lambda>j. \<lparr>item_id = jsx_id j, item_label = component j,
               item_meta = JsxMeta (depth j) (props j), item_depth = depth j\<rparr>) js"

subsection \<open>Depth-grouped layout of the element column\<close>

text \<open>
  \<open>jsxByDepth\<close> is a \<open>Map\<close> from depth to the items of that depth; a \<open>Map\<close> keeps its
  keys in insertion order, so it is an association list. \<open>mapPush\<close> is
  \<open>arr = m.get(k) ?? []; arr.push(v); m.set(k, arr)\<close>.
\<close>

fun mapPush :: "(nat \<times> 'a list) list \<Rightarrow> nat \<Rightarrow> 'a \<Rightarrow> (nat \<times> 'a list) list" where
  "mapPush [] k v = [(k, [v])]"
| "mapPush ((k', vs) # m) k v =
     (if k' = k then (k', vs @ [v]) # m else (k', vs) # mapPush m k v)"

definition jsxByDepth :: "JsxLayoutItem list \<Rightarrow> (nat \<times> JsxLayoutItem list) list" where
  "jsxByDepth items = foldl (\<lambda>m item. mapPush m (item_depth item) item) [] items"

definition layoutJsxByDepth :: "JsxLayoutItem list \<Rightarrow> int \<Rightarrow> GraphNode list" where
  "layoutJsxByDepth items x =
     (let jsxBaseY = 80; depthGapY = 80; intraGapY = 32
      in concat
           (map (\<lambda>(d, group).
                   mapIndexed
                     (\<lambda>item index.
                        mkNode Jsx item x (jsxBaseY + int d * depthGapY + int index * intraGapY))
                     group)
              (sort_key fst (jsxByDepth items))))"

subsection \<open>Edge inference\<close>

text \<open>
  \<open>connectSequential\<close>: \<open>toNodes[index] ?? toNodes[toNodes.length - 1]\<close> is the node at
  the same index, else the last node, else \<open>undefined\<close> (an empty array).
\<close>

definition nodeAtOrLast :: "GraphNode list \<Rightarrow> nat \<Rightarrow> GraphNode option" where
  "nodeAtOrLast toNodes index =
     (if index < length toNodes then Some (toNodes ! index)
      else if toNodes \<noteq> [] then Some (last toNodes)
      else None)"

definition flowEdge :: "GraphNode \<Rightarrow> GraphNode \<Rightarrow> string option \<Rightarrow> GraphEdge" where
  "flowEdge fromNode toNode label =
     mkEdge (''flow-'' @ node_id fromNode @ ''-'' @ node_id toNode) fromNode toNode Flow label"

definition connectSequential ::
  "GraphNode list \<Rightarrow> GraphNode list \<Rightarrow> string option \<Rightarrow> GraphEdge list" where
  "connectSequential fromNodes toNodes label =
     pushEach (\<lambda>(index, fromNode).
                 (case nodeAtOrLast toNodes index of
                    None \<Rightarrow> None
                  | Some toNode \<Rightarrow> Some (flowEdge fromNode toNode label)))
       (enumerate 0 fromNodes)"

text \<open>
  \<open>setter.match(/^set([A-Z].*)/)\<close> and the candidate state name built from the match:
  the capture is the capital letter and everything after it up to the first line
  terminator (\<open>.\<close> does not match one); the candidate is the capture with its first
  letter in lower case. Without a match the candidate is the setter itself.
\<close>

definition lineTerminator :: "char \<Rightarrow> bool" where
  "lineTerminator c = (c = CHR 0x0A \<or> c = CHR 0x0D)"

fun stateNameOf :: "string \<Rightarrow> string" where
  "stateNameOf (a # b # c # d # rest) =
     (if a = CHR ''s'' \<and> b = CHR ''e'' \<and> c = CHR ''t'' \<and> isUpperAZ d
      then lowerChar d # takeWhile (\<lambda>ch. \<not> lineTerminator ch) rest
      else a # b # c # d # rest)"
| "stateNameOf setter = setter"

definition findStateNode :: "GraphNode list \<Rightarrow> string \<Rightarrow> GraphNode option" where
  "findStateNode stateNodes name = find (\<lambda>n. startsWith (node_label n) name) stateNodes"

definition depEdge :: "GraphNode list \<Rightarrow> GraphNode \<Rightarrow> EffectDependency \<Rightarrow> GraphEdge option" where
  "depEdge stateNodes effectNode dep =
     (case findStateNode stateNodes (dep_name dep) of
        None \<Rightarrow> None
      | Some stateNode \<Rightarrow>
          Some (mkEdge (''dep-'' @ node_id stateNode @ ''-'' @ node_id effectNode @ ''-''
                         @ dep_name dep)
                  stateNode effectNode StateDependency (Some (dep_name dep))))"

definition mutEdge :: "string \<Rightarrow> GraphNode list \<Rightarrow> GraphNode \<Rightarrow> string \<Rightarrow> GraphEdge option" where
  "mutEdge tag stateNodes sourceNode setter =
     (case findStateNode stateNodes (stateNameOf setter) of
        None \<Rightarrow> None
      | Some stateNode \<Rightarrow>
          Some (mkEdge (tag @ node_id sourceNode @ ''-'' @ node_id stateNode @ ''-'' @ setter)
                  sourceNode stateNode StateMutation (Some setter)))"

definition effectEdges ::
  "GraphNode list \<Rightarrow> GraphNode list \<Rightarrow> AnalyzedEffect \<Rightarrow> GraphEdge list" where
  "effectEdges effectNodes stateNodes effect =
     (case find (\<lambda>n. node_id n = ''effect-'' @ effect_id effect) effectNodes of
        None \<Rightarrow> []
      | Some effectNode \<Rightarrow>
          pushEach (depEdge stateNodes effectNode) (dependencies effect)
          @ pushEach (mutEdge ''mut-'' stateNodes effectNode) (setters effect))"

definition callbackEdges ::
  "GraphNode list \<Rightarrow> GraphNode list \<Rightarrow> AnalyzedCallback \<Rightarrow> GraphEdge list" where
  "callbackEdges effectNodes stateNodes cb =
     (case find (\<lambda>n. node_id n = ''effect-'' @ cb_id cb) effectNodes of
        None \<Rightarrow> []
      | Some cbNode \<Rightarrow> pushEach (mutEdge ''cb-mut-'' stateNodes cbNode) (cb_setters cb))"

definition metaProps :: "NodeMeta \<Rightarrow> string list" where
  "metaProps m = (case m of JsxMeta d ps \<Rightarrow> ps | _ \<Rightarrow> [])"

definition propEdge ::
  "GraphNode list \<Rightarrow> GraphNode list \<Rightarrow> GraphNode \<Rightarrow> string \<Rightarrow> GraphEdge option" where
  "propEdge stateNodes independentNodes jsxNode name =
     (case (case findStateNode stateNodes name of
              Some n \<Rightarrow> Some n
            | None \<Rightarrow> find (\<lambda>n. node_label n = name) independentNodes) of
        None \<Rightarrow> None
      | Some fromStateNode \<Rightarrow>
          Some (mkEdge (''jsx-prop-'' @ node_id fromStateNode @ ''-'' @ node_id jsxNode @ ''-''
                         @ name)
                  fromStateNode jsxNode StateDependency (Some name)))"

definition jsxPropEdges ::
  "GraphNode list \<Rightarrow> GraphNode list \<Rightarrow> GraphNode \<Rightarrow> GraphEdge list" where
  "jsxPropEdges stateNodes independentNodes jsxNode =
     pushEach (propEdge stateNodes independentNodes jsxNode) (metaProps (node_meta jsxNode))"

text \<open>
  The structural edges. \<open>jsxNodeMap\<close> maps a logical element identity (the node identity
  without its leading \<open>jsx-\<close>) to the node; a later node with the same key replaces an
  earlier one. A fact with a falsy \<open>parentId\<close>, or whose parent or own identity is no
  key of the map, gets no edge.
\<close>

definition logicalId :: "string \<Rightarrow> string" where
  "logicalId nid = (if prefix ''jsx-'' nid then drop 4 nid else nid)"

definition jsxNodeMap :: "GraphNode list \<Rightarrow> (string \<rightharpoonup> GraphNode)" where
  "jsxNodeMap jsxNodes = fold (\<lambda>node m. m(logicalId (node_id node) \<mapsto> node)) jsxNodes Map.empty"

definition treeEdge :: "(string \<rightharpoonup> GraphNode) \<Rightarrow> MappingJsxNode \<Rightarrow> GraphEdge option" where
  "treeEdge nodeMap j =
     (case parentId j of
        None \<Rightarrow> None
      | Some p \<Rightarrow>
          if p = [] then None
          else (case (nodeMap p, nodeMap (jsx_id j)) of
                  (Some parentNode, Some childNode) \<Rightarrow>
                    Some (mkEdge (''jsx-tree-'' @ node_id parentNode @ ''-'' @ node_id childNode)
                            parentNode childNode Flow None)
                | _ \<Rightarrow> None))"

definition jsxTreeEdges :: "GraphNode list \<Rightarrow> MappingJsxNode list \<Rightarrow> GraphEdge list" where
  "jsxTreeEdges jsxNodes js = pushEach (treeEdge (jsxNodeMap jsxNodes)) js"

text \<open>The edges both assemblers infer, in the order they are pushed.\<close>

definition dataEdges ::
  "GraphNode list \<Rightarrow> GraphNode list \<Rightarrow> GraphNode list \<Rightarrow> GraphNode list
   \<Rightarrow> AnalyzedEffect list \<Rightarrow> AnalyzedCallback list \<Rightarrow> GraphEdge list" where
  "dataEdges independentNodes stateNodes effectNodes jsxNodes es cbs =
     (if independentNodes \<noteq> [] \<and> stateNodes \<noteq> []
      then connectSequential independentNodes stateNodes None else [])
     @ concat (map (effectEdges effectNodes stateNodes) es)
     @ concat (map (callbackEdges effectNodes stateNodes) cbs)
     @ concat (map (jsxPropEdges stateNodes independentNodes) jsxNodes)"

definition lastJsxY :: "GraphNode list \<Rightarrow> int" where
  "lastJsxY jsxNodes = (if jsxNodes \<noteq> [] then node_y (last jsxNodes) else 600)"

subsection \<open>The two assemblers\<close>

text \<open>
  \<open>buildGraphFromAnalysis\<close> lays the element column out flat, in fact order;
  \<open>buildGraphFromMappingResult\<close> groups it by depth and adds the structural edges.
  Everything else is the same code in both files.
\<close>

definition emptyLayout :: GraphLayout where
  "emptyLayout =
     (let cx = buildColumnX
      in \<lparr>nodes = [], edges = [], width = col_jsx cx + 200, height = 800, colX = cx\<rparr>)"

definition buildGraphFromAnalysis :: "ComponentAnalysis option \<Rightarrow> GraphLayout" where
  "buildGraphFromAnalysis analysis =
     (case analysis of
        None \<Rightarrow> emptyLayout
      | Some a \<Rightarrow>
          (let cx = buildColumnX;
               independentNodes =
                 layoutColumnNodes (independentItems (ca_hooks a)) Independent (col_independent cx) 80 50;
               stateNodes = layoutColumnNodes (stateItems (ca_hooks a)) State (col_state cx) 80 40;
               effectNodes =
                 layoutColumnNodes (effectItems (ca_effects a) (ca_callbacks a)) Effect (col_effect cx) 80 40;
               jsxNodes = layoutColumnNodes (jsxItems (ca_jsxNodes a)) Jsx (col_jsx cx) 80 32
           in \<lparr>nodes = independentNodes @ stateNodes @ effectNodes @ jsxNodes,
               edges = dataEdges independentNodes stateNodes effectNodes jsxNodes
                         (ca_effects a) (ca_callbacks a),
               width = col_jsx cx + 200,
               height = lastJsxY jsxNodes + 120,
               colX = cx\<rparr>))"

definition buildGraphFromMappingResult :: "MappingResult option \<Rightarrow> GraphLayout" where
  "buildGraphFromMappingResult mappingResult =
     (case mappingResult of
        None \<Rightarrow> emptyLayout
      | Some mr \<Rightarrow>
          (let cx = buildColumnX;
               independentNodes =
                 layoutColumnNodes (independentItems (mr_hooks mr)) Independent
                   (col_independent cx) 80 50;
               stateNodes = layoutColumnNodes (stateItems (mr_hooks mr)) State (col_state cx) 80 40;
               effectNodes =
                 layoutColumnNodes (effectItems (mr_effects mr) (mr_callbacks mr)) Effect
                   (col_effect cx) 80 40;
               jsxNodes = layoutJsxByDepth (jsxLayoutItems (mr_jsxNodes mr)) (col_jsx cx)
           in \<lparr>nodes = independentNodes @ stateNodes @ effectNodes @ jsxNodes,
               edges = dataEdges independentNodes stateNodes effectNodes jsxNodes
                         (mr_effects mr) (mr_callbacks mr)
                       @ jsxTreeEdges jsxNodes (mr_jsxNodes mr),
               width = col_jsx cx + 200,
               height = lastJsxY jsxNodes + 120,
               colX = cx\<rparr>))"

section \<open>Concrete components\<close>

text \<open>
  The body of \<open>function App() { return <div><span><b/></span></div>; }\<close>: a block
  statement holding a return statement holding three nested elements.
\<close>

definition threeNestedBody :: Node where
  "threeNestedBody =
     OtherNode [OtherNode
       [JSXElement (JSXIdentifier ''div'') []
          [JSXElement (JSXIdentifier ''span'') []
             [JSXElement (JSXIdentifier ''b'') [] []]]]]"

text \<open>
  The analysis that holds the element facts the walk records for that body, and the
  mapping result the three elements are meant to give: three facts, each child naming its
  parent.
\<close>

definition threeNestedAnalysis :: ComponentAnalysis where
  "threeNestedAnalysis =
     \<lparr>ca_fileName = None, ca_componentName = Some ''App'', ca_hooks = [], ca_effects = [],
      ca_callbacks = [], ca_jsxNodes = analyzeJsxTree threeNestedBody [],
      ca_exportedComponents = [], ca_defaultExport = Some ''App'', ca_errors = []\<rparr>"

definition threeNestedMapping :: MappingResult where
  "threeNestedMapping =
     \<lparr>mr_fileName = None, mr_componentName = Some ''App'', mr_hooks = [],
      mr_effects = [], mr_callbacks = [],
      mr_jsxNodes =
        [\<lparr>jsx_id = ''jsx-1'', component = ''div'', depth = 0, props = [], parentId = None\<rparr>,
         \<lparr>jsx_id = ''jsx-2'', component = ''span'', depth = 1, props = [],
          parentId = Some ''jsx-1''\<rparr>,
         \<lparr>jsx_id = ''jsx-3'', component = ''b'', depth = 2, props = [],
          parentId = Some ''jsx-2''\<rparr>],
      mr_exportedComponents = [], mr_defaultExport = Some ''App'', mr_errors = [],
      calledVariableNames = []\<rparr>"

text \<open>
  The walker's state after \<open>const [count, setCount] = useState(0)\<close> and
  \<open>useEffect(() => {}, [count, count])\<close>, both hooks imported from \<open>react\<close>, and the
  analysis holding those facts.
\<close>

definition emptyWalk :: Walk where
  "emptyWalk = \<lparr>w_hooks = [], w_effects = [], w_callbacks = [], w_globalStateNames = {}\<rparr>"

definition reactImports :: "string \<rightharpoonup> string" where
  "reactImports = [''useState'' \<mapsto> ''react'', ''useEffect'' \<mapsto> ''react'']"

definition repeatedDepWalk :: "error + Walk" where
  "repeatedDepWalk =
     (case visitVariableDeclarator reactImports (Some (IdentifierCallee ''useState''))
             (ArrayPattern [Some ''count'', Some ''setCount'']) emptyWalk of
        Inl err \<Rightarrow> Inl err
      | Inr w \<Rightarrow>
          visitCallExpression reactImports (IdentifierCallee ''useEffect'')
            [FunctionArg [], ArrayExpression [Identifier ''count'', Identifier ''count'']] None w)"

text \<open>The facts a sequence of visits ends with; none when a visit threw.\<close>

definition walkFacts :: "error + Walk \<Rightarrow> Walk" where
  "walkFacts r = (case r of Inl err \<Rightarrow> emptyWalk | Inr w \<Rightarrow> w)"

definition repeatedDepAnalysis :: ComponentAnalysis where
  "repeatedDepAnalysis =
     \<lparr>ca_fileName = None, ca_componentName = Some ''App'',
      ca_hooks = w_hooks (walkFacts repeatedDepWalk),
      ca_effects = w_effects (walkFacts repeatedDepWalk),
      ca_callbacks = w_callbacks (walkFacts repeatedDepWalk), ca_jsxNodes = [],
      ca_exportedComponents = [], ca_defaultExport = Some ''App'', ca_errors = []\<rparr>"

text \<open>
  A counter component: \<open>const [count, setCount] = useState(0)\<close>, three refs, one effect
  depending on \<open>count\<close> that calls \<open>setCount\<close> and \<open>setMissing\<close>, one callback
  \<open>onClick\<close> that calls \<open>setCount\<close>, and the markup
  \<open><div value={count}><span><b/></span><i/></div>\<close>.
\<close>

definition counterHooks :: "AnalyzedHook list" where
  "counterHooks =
     [\<lparr>hook_id = ''hook-1'', hook_name = ''count'', hookKind = UseState, scope = Local,
       hook_importSource = Some ''react''\<rparr>,
      \<lparr>hook_id = ''hook-2'', hook_name = ''setCount'', hookKind = UseState, scope = Local,
       hook_importSource = Some ''react''\<rparr>,
      \<lparr>hook_id = ''hook-3'', hook_name = ''boxRef'', hookKind = UseRef, scope = Local,
       hook_importSource = Some ''react''\<rparr>,
      \<lparr>hook_id = ''hook-4'', hook_name = ''inputRef'', hookKind = UseRef, scope = Local,
       hook_importSource = Some ''react''\<rparr>,
      \<lparr>hook_id = ''hook-5'', hook_name = ''timerRef'', hookKind = UseRef, scope = Local,
       hook_importSource = Some ''react''\<rparr>]"

definition counterEffect :: AnalyzedEffect where
  "counterEffect =
     \<lparr>effect_id = ''effect-1'', effect_hookKind = UseEffect,
      dependencies = [\<lparr>dep_name = ''count'', isGlobal = False\<rparr>],
      setters = [''setCount'', ''setMissing''], refs = []\<rparr>"

definition counterCallback :: AnalyzedCallback where
  "counterCallback =
     \<lparr>cb_id = ''callback-1'', cb_name = Some ''onClick'', cb_dependencies = [],
      cb_setters = [''setCount'']\<rparr>"

definition counterMapping :: MappingResult where
  "counterMapping =
     \<lparr>mr_fileName = None, mr_componentName = Some ''Counter'', mr_hooks = counterHooks,
      mr_effects = [counterEffect], mr_callbacks = [counterCallback],
      mr_jsxNodes =
        [\<lparr>jsx_id = ''jsx-1'', component = ''div'', depth = 0, props = [''count''],
          parentId = None\<rparr>,
         \<lparr>jsx_id = ''jsx-2'', component = ''span'', depth = 1, props = [],
          parentId = Some ''jsx-1''\<rparr>,
         \<lparr>jsx_id = ''jsx-3'', component = ''b'', depth = 2, props = [],
          parentId = Some ''jsx-2''\<rparr>,
         \<lparr>jsx_id = ''jsx-4'', component = ''i'', depth = 1, props = [],
          parentId = Some ''jsx-1''\<rparr>],
      mr_exportedComponents = [], mr_defaultExport = Some ''Counter'', mr_errors = [],
      calledVariableNames = []\<rparr>"

definition counterAnalysis :: ComponentAnalysis where
  "counterAnalysis =
     \<lparr>ca_fileName = None, ca_componentName = Some ''Counter'', ca_hooks = counterHooks,
      ca_effects = [counterEffect], ca_callbacks = [counterCallback],
      ca_jsxNodes =
        [\<lparr>jsx_id = ''jsx-1'', component = ''div'', depth = 0, props = [''count'']\<rparr>,
         \<lparr>jsx_id = ''jsx-2'', component = ''span'', depth = 1, props = []\<rparr>,
         \<lparr>jsx_id = ''jsx-3'', component = ''b'', depth = 2, props = []\<rparr>,
         \<lparr>jsx_id = ''jsx-4'', component = ''i'', depth = 1, props = []\<rparr>],
      ca_exportedComponents = [], ca_defaultExport = Some ''Counter'', ca_errors = []\<rparr>"

text \<open>
  A component with one state hook and no markup, and a list component whose markup is
  \<open><ul><li><b/></li><li/><li/><li/></ul>\<close>.
\<close>

definition stateOnlyAnalysis :: ComponentAnalysis where
  "stateOnlyAnalysis =
     \<lparr>ca_fileName = None, ca_componentName = Some ''App'',
      ca_hooks = [\<lparr>hook_id = ''hook-1'', hook_name = ''count'', hookKind = UseState,
                   scope = Local, hook_importSource = Some ''react''\<rparr>],
      ca_effects = [], ca_callbacks = [], ca_jsxNodes = [],
      ca_exportedComponents = [], ca_defaultExport = Some ''App'', ca_errors = []\<rparr>"

definition wideMapping :: MappingResult where
  "wideMapping =
     \<lparr>mr_fileName = None, mr_componentName = Some ''List'', mr_hooks = [],
      mr_effects = [], mr_callbacks = [],
      mr_jsxNodes =
        [\<lparr>jsx_id = ''jsx-1'', component = ''ul'', depth = 0, props = [], parentId = None\<rparr>,
         \<lparr>jsx_id = ''jsx-2'', component = ''li'', depth = 1, props = [],
          parentId = Some ''jsx-1''\<rparr>,
         \<lparr>jsx_id = ''jsx-3'', component = ''b'', depth = 2, props = [],
          parentId = Some ''jsx-2''\<rparr>,
         \<lparr>jsx_id = ''jsx-4'', component = ''li'', depth = 1, props = [],
          parentId = Some ''jsx-1''\<rparr>,
         \<lparr>jsx_id = ''jsx-5'', component = ''li'', depth = 1, props = [],
          parentId = Some ''jsx-1''\<rparr>,
         \<lparr>jsx_id = ''jsx-6'', component = ''li'', depth = 1, props = [],
          parentId = Some ''jsx-1''\<rparr>],
      mr_exportedComponents = [], mr_defaultExport = Some ''List'', mr_errors = [],
      calledVariableNames = []\<rparr>"


section \<open>Reading a layout\<close>

text \<open>
  The nodes of one column are the nodes of that kind, in layout order. A sequential-flow
  edge is an edge of kind \<open>flow\<close> whose source is a node of the independent column.
\<close>

abbreviation independentNodesIn :: "GraphLayout \<Rightarrow> GraphNode list" where
  "independentNodesIn L \<equiv> filter (\<lambda>n. node_kind n = Independent) (nodes L)"

abbreviation stateNodesIn :: "GraphLayout \<Rightarrow> GraphNode list" where
  "stateNodesIn L \<equiv> filter (\<lambda>n. node_kind n = State) (nodes L)"

abbreviation jsxNodesIn :: "GraphLayout \<Rightarrow> GraphNode list" where
  "jsxNodesIn L \<equiv> filter (\<lambda>n. node_kind n = Jsx) (nodes L)"

abbreviation leavesIndependentColumn :: "GraphEdge \<Rightarrow> bool" where
  "leavesIndependentColumn e \<equiv>
     edge_kind e = Flow \<and> prefix ''independent-'' (nodeId (edge_from e))"

section \<open>Properties\<close>

subsection \<open>Basic facts about the helpers\<close>

lemma length_mapIndexed [simp]: "length (mapIndexed f xs) = length xs"
  by (simp add: mapIndexed_def)

lemma nth_mapIndexed [simp]: "i < length xs \<Longrightarrow> mapIndexed f xs ! i = f (xs ! i) i"
  by (simp add: mapIndexed_def nth_enumerate_eq)

lemma mapIndexed_Nil_iff [simp]: "mapIndexed f xs = [] \<longleftrightarrow> xs = []"
  by (cases xs) (simp_all add: mapIndexed_def)

lemma in_set_mapIndexed:
  "y \<in> set (mapIndexed f xs) \<longleftrightarrow> (\<exists>i < length xs. y = f (xs ! i) i)"
  by (auto simp: in_set_conv_nth)

lemma map_mapIndexed_const:
  "(\<And>x i. g (f x i) = h x) \<Longrightarrow> map g (mapIndexed f xs) = map h xs"
  by (rule nth_equalityI) simp_all

lemma find_SomeD: "find P xs = Some x \<Longrightarrow> P x \<and> x \<in> set xs"
  by (induction xs) (auto split: if_splits)

lemma find_exists: "x \<in> set xs \<Longrightarrow> P x \<Longrightarrow> \<exists>y. find P xs = Some y"
  by (induction xs) auto

lemma in_set_pushEach: "e \<in> set (pushEach f xs) \<longleftrightarrow> (\<exists>x \<in> set xs. f x = Some e)"
  by (induction xs) (auto split: option.splits)

lemma mkEdge_sel [simp]:
  "edge_id (mkEdge i a b k l) = i"
  "nodeId (edge_from (mkEdge i a b k l)) = node_id a"
  "nodeId (edge_to (mkEdge i a b k l)) = node_id b"
  "edge_kind (mkEdge i a b k l) = k"
  "edge_label (mkEdge i a b k l) = l"
  by (simp_all add: mkEdge_def)

lemma mkNode_sel [simp]:
  "node_id (mkNode k it x y) = kindName k @ ''-'' @ item_id it"
  "node_label (mkNode k it x y) = item_label it"
  "node_kind (mkNode k it x y) = k"
  "node_x (mkNode k it x y) = x"
  "node_y (mkNode k it x y) = y"
  "node_width (mkNode k it x y) = 120"
  "node_meta (mkNode k it x y) = item_meta it"
  by (simp_all add: mkNode_def)

lemma layoutColumnNodes_kind:
  "n \<in> set (layoutColumnNodes items k x s g) \<Longrightarrow> node_kind n = k"
  by (auto simp: layoutColumnNodes_def in_set_mapIndexed)

lemma layoutColumnNodes_ids:
  "map node_id (layoutColumnNodes items k x s g) = map (\<lambda>it. kindName k @ ''-'' @ item_id it) items"
  unfolding layoutColumnNodes_def by (rule map_mapIndexed_const) simp

lemma layoutColumnNodes_length [simp]:
  "length (layoutColumnNodes items k x s g) = length items"
  by (simp add: layoutColumnNodes_def)

lemma connectSequential_endpoints:
  assumes "e \<in> set (connectSequential fs ts l)"
  shows "\<exists>a \<in> set fs. \<exists>b \<in> set ts. nodeId (edge_from e) = node_id a \<and> nodeId (edge_to e) = node_id b"
proof -
  from assms obtain i a b where ia: "(i, a) \<in> set (enumerate 0 fs)"
    and b: "nodeAtOrLast ts i = Some b" and e: "e = flowEdge a b l"
    by (auto simp: connectSequential_def in_set_pushEach split: option.splits)
  from ia have "a \<in> set fs" by (auto simp: in_set_enumerate_eq)
  moreover from b have "b \<in> set ts"
    by (auto simp: nodeAtOrLast_def split: if_splits)
  ultimately show ?thesis using e by (auto simp: flowEdge_def)
qed

lemma findStateNode_SomeD:
  "findStateNode sts nm = Some n \<Longrightarrow> n \<in> set sts \<and> startsWith (node_label n) nm"
  unfolding findStateNode_def by (drule find_SomeD) simp

lemma depEdge_SomeD:
  "depEdge sts en d = Some e \<Longrightarrow>
     \<exists>sn. findStateNode sts (dep_name d) = Some sn
       \<and> e = mkEdge (''dep-'' @ node_id sn @ ''-'' @ node_id en @ ''-'' @ dep_name d)
               sn en StateDependency (Some (dep_name d))"
  by (simp add: depEdge_def split: option.splits)

lemma mutEdge_SomeD:
  "mutEdge tag sts src s = Some e \<Longrightarrow>
     \<exists>sn. findStateNode sts (stateNameOf s) = Some sn
       \<and> e = mkEdge (tag @ node_id src @ ''-'' @ node_id sn @ ''-'' @ s)
               src sn StateMutation (Some s)"
  by (simp add: mutEdge_def split: option.splits)

lemma propEdge_SomeD:
  "propEdge sts inds j nm = Some e \<Longrightarrow>
     \<exists>fn. (findStateNode sts nm = Some fn
            \<or> findStateNode sts nm = None \<and> find (\<lambda>n. node_label n = nm) inds = Some fn)
       \<and> e = mkEdge (''jsx-prop-'' @ node_id fn @ ''-'' @ node_id j @ ''-'' @ nm)
               fn j StateDependency (Some nm)"
  by (simp add: propEdge_def split: option.splits)

lemma treeEdge_SomeD:
  "treeEdge nodeMap j = Some e \<Longrightarrow>
     \<exists>p pn cn. parentId j = Some p \<and> p \<noteq> [] \<and> nodeMap p = Some pn \<and> nodeMap (jsx_id j) = Some cn
       \<and> e = mkEdge (''jsx-tree-'' @ node_id pn @ ''-'' @ node_id cn) pn cn Flow None"
  by (simp add: treeEdge_def split: option.splits if_splits)

lemma effectEdges_cases:
  assumes "e \<in> set (effectEdges effNodes sts eff)"
  obtains en d where "find (\<lambda>n. node_id n = ''effect-'' @ effect_id eff) effNodes = Some en"
      "d \<in> set (dependencies eff)" "depEdge sts en d = Some e"
  | en s where "find (\<lambda>n. node_id n = ''effect-'' @ effect_id eff) effNodes = Some en"
      "s \<in> set (setters eff)" "mutEdge ''mut-'' sts en s = Some e"
proof (cases "find (\<lambda>n. node_id n = ''effect-'' @ effect_id eff) effNodes")
  case None
  with assms show ?thesis by (simp add: effectEdges_def)
next
  case (Some en)
  with assms have "e \<in> set (pushEach (depEdge sts en) (dependencies eff))
      \<or> e \<in> set (pushEach (mutEdge ''mut-'' sts en) (setters eff))"
    by (simp add: effectEdges_def)
  with Some that show ?thesis unfolding in_set_pushEach by blast
qed

lemma callbackEdges_cases:
  assumes "e \<in> set (callbackEdges effNodes sts cb)"
  obtains cn s where "find (\<lambda>n. node_id n = ''effect-'' @ cb_id cb) effNodes = Some cn"
      "s \<in> set (cb_setters cb)" "mutEdge ''cb-mut-'' sts cn s = Some e"
proof (cases "find (\<lambda>n. node_id n = ''effect-'' @ cb_id cb) effNodes")
  case None
  with assms show ?thesis by (simp add: callbackEdges_def)
next
  case (Some cn)
  with assms have "e \<in> set (pushEach (mutEdge ''cb-mut-'' sts cn) (cb_setters cb))"
    by (simp add: callbackEdges_def)
  with Some that show ?thesis unfolding in_set_pushEach by blast
qed

lemma effectEdges_endpoints:
  assumes "e \<in> set (effectEdges effNodes sts eff)"
  shows "nodeId (edge_from e) \<in> node_id ` (set sts \<union> set effNodes)
       \<and> nodeId (edge_to e) \<in> node_id ` (set sts \<union> set effNodes)"
  using assms
proof (cases rule: effectEdges_cases)
  case (1 en d)
  from 1(1) have en: "en \<in> set effNodes" by (auto dest: find_SomeD)
  from depEdge_SomeD [OF 1(3)] obtain sn where sn: "findStateNode sts (dep_name d) = Some sn"
    and e: "nodeId (edge_from e) = node_id sn" "nodeId (edge_to e) = node_id en" by force
  from findStateNode_SomeD [OF sn] have "sn \<in> set sts" by simp
  with en e show ?thesis by simp
next
  case (2 en s)
  from 2(1) have en: "en \<in> set effNodes" by (auto dest: find_SomeD)
  from mutEdge_SomeD [OF 2(3)] obtain sn where sn: "findStateNode sts (stateNameOf s) = Some sn"
    and e: "nodeId (edge_from e) = node_id en" "nodeId (edge_to e) = node_id sn" by force
  from findStateNode_SomeD [OF sn] have "sn \<in> set sts" by simp
  with en e show ?thesis by simp
qed

lemma callbackEdges_endpoints:
  assumes "e \<in> set (callbackEdges effNodes sts cb)"
  shows "nodeId (edge_from e) \<in> node_id ` (set sts \<union> set effNodes)
       \<and> nodeId (edge_to e) \<in> node_id ` (set sts \<union> set effNodes)"
  using assms
proof (cases rule: callbackEdges_cases)
  case (1 cn s)
  from 1(1) have cn: "cn \<in> set effNodes" by (auto dest: find_SomeD)
  from mutEdge_SomeD [OF 1(3)] obtain sn where sn: "findStateNode sts (stateNameOf s) = Some sn"
    and e: "nodeId (edge_from e) = node_id cn" "nodeId (edge_to e) = node_id sn" by force
  from findStateNode_SomeD [OF sn] have "sn \<in> set sts" by simp
  with cn e show ?thesis by simp
qed

lemma jsxPropEdges_endpoints:
  assumes "e \<in> set (jsxPropEdges sts inds j)"
  shows "nodeId (edge_from e) \<in> node_id ` (set sts \<union> set inds)
       \<and> nodeId (edge_to e) = node_id j"
proof -
  from assms obtain nm where "propEdge sts inds j nm = Some e"
    unfolding jsxPropEdges_def in_set_pushEach by blast
  from propEdge_SomeD [OF this] obtain fn where
    fn: "findStateNode sts nm = Some fn
         \<or> findStateNode sts nm = None \<and> find (\<lambda>n. node_label n = nm) inds = Some fn"
    and e: "e = mkEdge (''jsx-prop-'' @ node_id fn @ ''-'' @ node_id j @ ''-'' @ nm)
               fn j StateDependency (Some nm)" by blast
  from fn have "fn \<in> set sts \<union> set inds"
    using findStateNode_SomeD [of sts nm fn] find_SomeD [of "\<lambda>n. node_label n = nm" inds fn]
    by blast
  then show ?thesis by (simp add: e)
qed

lemma dataEdges_endpoints:
  assumes "e \<in> set (dataEdges inds sts effNodes jsxs es cbs)"
  shows "nodeId (edge_from e) \<in> node_id ` (set inds \<union> set sts \<union> set effNodes \<union> set jsxs)
       \<and> nodeId (edge_to e) \<in> node_id ` (set inds \<union> set sts \<union> set effNodes \<union> set jsxs)"
proof -
  consider (flow) "e \<in> set (connectSequential inds sts None)"
    | (eff) eff where "e \<in> set (effectEdges effNodes sts eff)"
    | (cb) cb where "e \<in> set (callbackEdges effNodes sts cb)"
    | (pr) j where "j \<in> set jsxs" "e \<in> set (jsxPropEdges sts inds j)"
    using assms by (auto simp: dataEdges_def split: if_splits)
  then show ?thesis
  proof cases
    case flow
    from connectSequential_endpoints [OF this] show ?thesis by blast
  next
    case eff
    from effectEdges_endpoints [OF this] show ?thesis by blast
  next
    case cb
    from callbackEdges_endpoints [OF this] show ?thesis by blast
  next
    case pr
    from jsxPropEdges_endpoints [OF pr(2)] pr(1) show ?thesis by blast
  qed
qed

lemma jsxNodeMap_fold_in:
  "fold (\<lambda>node m. m(logicalId (node_id node) \<mapsto> node)) ns m0 k = Some n
   \<Longrightarrow> n \<in> set ns \<or> m0 k = Some n"
proof (induction ns arbitrary: m0)
  case Nil
  then show ?case by simp
next
  case (Cons a ns)
  from Cons.IH [of "m0(logicalId (node_id a) \<mapsto> a)"] Cons.prems
  show ?case by (auto split: if_splits)
qed

lemma jsxNodeMap_in: "jsxNodeMap ns k = Some n \<Longrightarrow> n \<in> set ns"
  using jsxNodeMap_fold_in [of ns Map.empty k n] by (simp add: jsxNodeMap_def)

lemma jsxTreeEdges_endpoints:
  assumes "e \<in> set (jsxTreeEdges jsxs js)"
  shows "nodeId (edge_from e) \<in> node_id ` set jsxs \<and> nodeId (edge_to e) \<in> node_id ` set jsxs"
proof -
  from assms obtain j where "treeEdge (jsxNodeMap jsxs) j = Some e"
    unfolding jsxTreeEdges_def in_set_pushEach by blast
  from treeEdge_SomeD [OF this] obtain p pn cn where
    m: "jsxNodeMap jsxs p = Some pn" "jsxNodeMap jsxs (jsx_id j) = Some cn"
    and e: "nodeId (edge_from e) = node_id pn" "nodeId (edge_to e) = node_id cn" by force
  from m have "pn \<in> set jsxs" "cn \<in> set jsxs" by (auto dest: jsxNodeMap_in)
  with e show ?thesis by simp
qed

lemma nodes_analysis:
  "nodes (buildGraphFromAnalysis (Some a)) =
     layoutColumnNodes (independentItems (ca_hooks a)) Independent 80 80 50
     @ layoutColumnNodes (stateItems (ca_hooks a)) State 300 80 40
     @ layoutColumnNodes (effectItems (ca_effects a) (ca_callbacks a)) Effect 740 80 40
     @ layoutColumnNodes (jsxItems (ca_jsxNodes a)) Jsx 960 80 32"
  by (simp add: buildGraphFromAnalysis_def buildColumnX_def Let_def)

lemma edges_analysis:
  "edges (buildGraphFromAnalysis (Some a)) =
     dataEdges (layoutColumnNodes (independentItems (ca_hooks a)) Independent 80 80 50)
       (layoutColumnNodes (stateItems (ca_hooks a)) State 300 80 40)
       (layoutColumnNodes (effectItems (ca_effects a) (ca_callbacks a)) Effect 740 80 40)
       (layoutColumnNodes (jsxItems (ca_jsxNodes a)) Jsx 960 80 32)
       (ca_effects a) (ca_callbacks a)"
  by (simp add: buildGraphFromAnalysis_def buildColumnX_def Let_def)

lemma nodes_mapping:
  "nodes (buildGraphFromMappingResult (Some mr)) =
     layoutColumnNodes (independentItems (mr_hooks mr)) Independent 80 80 50
     @ layoutColumnNodes (stateItems (mr_hooks mr)) State 300 80 40
     @ layoutColumnNodes (effectItems (mr_effects mr) (mr_callbacks mr)) Effect 740 80 40
     @ layoutJsxByDepth (jsxLayoutItems (mr_jsxNodes mr)) 960"
  by (simp add: buildGraphFromMappingResult_def buildColumnX_def Let_def)

lemma edges_mapping:
  "edges (buildGraphFromMappingResult (Some mr)) =
     dataEdges (layoutColumnNodes (independentItems (mr_hooks mr)) Independent 80 80 50)
       (layoutColumnNodes (stateItems (mr_hooks mr)) State 300 80 40)
       (layoutColumnNodes (effectItems (mr_effects mr) (mr_callbacks mr)) Effect 740 80 40)
       (layoutJsxByDepth (jsxLayoutItems (mr_jsxNodes mr)) 960)
       (mr_effects mr) (mr_callbacks mr)
     @ jsxTreeEdges (layoutJsxByDepth (jsxLayoutItems (mr_jsxNodes mr)) 960) (mr_jsxNodes mr)"
  by (simp add: buildGraphFromMappingResult_def buildColumnX_def Let_def)

lemma none_layout [simp]:
  "edges (buildGraphFromAnalysis None) = []" "edges (buildGraphFromMappingResult None) = []"
  "nodes (buildGraphFromAnalysis None) = []" "nodes (buildGraphFromMappingResult None) = []"
  by (simp_all add: buildGraphFromAnalysis_def buildGraphFromMappingResult_def emptyLayout_def Let_def)

lemma no_dangling_mapping:
  assumes "e \<in> set (edges (buildGraphFromMappingResult m))"
  shows "nodeId (edge_from e) \<in> node_id ` set (nodes (buildGraphFromMappingResult m))
       \<and> nodeId (edge_to e) \<in> node_id ` set (nodes (buildGraphFromMappingResult m))"
proof (cases m)
  case None
  with assms show ?thesis by simp
next
  case (Some mr)
  let ?inds = "layoutColumnNodes (independentItems (mr_hooks mr)) Independent 80 80 50"
  let ?sts = "layoutColumnNodes (stateItems (mr_hooks mr)) State 300 80 40"
  let ?effs = "layoutColumnNodes (effectItems (mr_effects mr) (mr_callbacks mr)) Effect 740 80 40"
  let ?jsxs = "layoutJsxByDepth (jsxLayoutItems (mr_jsxNodes mr)) 960"
  from assms have "e \<in> set (dataEdges ?inds ?sts ?effs ?jsxs (mr_effects mr) (mr_callbacks mr))
      \<or> e \<in> set (jsxTreeEdges ?jsxs (mr_jsxNodes mr))"
    by (simp add: Some edges_mapping)
  then have "nodeId (edge_from e) \<in> node_id ` (set ?inds \<union> set ?sts \<union> set ?effs \<union> set ?jsxs)
       \<and> nodeId (edge_to e) \<in> node_id ` (set ?inds \<union> set ?sts \<union> set ?effs \<union> set ?jsxs)"
    using dataEdges_endpoints [of e ?inds ?sts ?effs ?jsxs] jsxTreeEdges_endpoints [of e ?jsxs]
    by blast
  then show ?thesis by (simp add: Some nodes_mapping Un_assoc)
qed

lemma no_dangling_analysis:
  assumes "e \<in> set (edges (buildGraphFromAnalysis a))"
  shows "nodeId (edge_from e) \<in> node_id ` set (nodes (buildGraphFromAnalysis a))
       \<and> nodeId (edge_to e) \<in> node_id ` set (nodes (buildGraphFromAnalysis a))"
proof (cases a)
  case None
  with assms show ?thesis by simp
next
  case (Some ca)
  let ?inds = "layoutColumnNodes (independentItems (ca_hooks ca)) Independent 80 80 50"
  let ?sts = "layoutColumnNodes (stateItems (ca_hooks ca)) State 300 80 40"
  let ?effs = "layoutColumnNodes (effectItems (ca_effects ca) (ca_callbacks ca)) Effect 740 80 40"
  let ?jsxs = "layoutColumnNodes (jsxItems (ca_jsxNodes ca)) Jsx 960 80 32"
  from assms have "e \<in> set (dataEdges ?inds ?sts ?effs ?jsxs (ca_effects ca) (ca_callbacks ca))"
    by (simp add: Some edges_analysis)
  from dataEdges_endpoints [OF this]
  show ?thesis by (simp add: Some nodes_analysis Un_assoc)
qed


subsection \<open>Primary component selection\<close>

lemma find_equal: "find (\<lambda>name. name = b) xs = (if b \<in> set xs then Some b else None)"
  by (induction xs) auto

lemma stripExtension_cut:
  assumes "e \<noteq> []" "list_all extChar e"
  shows "stripExtension (b @ ''.'' @ e) = b"
proof (induction b)
  case Nil
  from assms show ?case by simp
next
  case (Cons c b)
  have "\<not> list_all extChar (b @ ''.'' @ e)" by (simp add: extChar_def)
  with Cons show ?case by simp
qed

lemma stripExtension_keep:
  assumes "\<nexists>b e. f = b @ ''.'' @ e \<and> e \<noteq> [] \<and> list_all extChar e"
  shows "stripExtension f = f"
  using assms
proof (induction f)
  case Nil
  then show ?case by simp
next
  case (Cons c f)
  have "\<nexists>b e. f = b @ ''.'' @ e \<and> e \<noteq> [] \<and> list_all extChar e"
  proof
    assume "\<exists>b e. f = b @ ''.'' @ e \<and> e \<noteq> [] \<and> list_all extChar e"
    then obtain b e where "f = b @ ''.'' @ e" "e \<noteq> []" "list_all extChar e" by blast
    then have "c # f = (c # b) @ ''.'' @ e \<and> e \<noteq> [] \<and> list_all extChar e" by simp
    with Cons.prems show False by blast
  qed
  with Cons.IH have keep: "stripExtension f = f" by blast
  have "\<not> (c = CHR ''.'' \<and> f \<noteq> [] \<and> list_all extChar f)"
  proof
    assume "c = CHR ''.'' \<and> f \<noteq> [] \<and> list_all extChar f"
    then have "c # f = [] @ ''.'' @ f \<and> f \<noteq> [] \<and> list_all extChar f" by simp
    with Cons.prems show False by blast
  qed
  with keep show ?case by auto
qed

lemma pick_equation:
  "pickPrimaryComponent ei fn =
     (if truthy (defaultExport ei) then defaultExport ei
      else case namedExports ei of
          [] \<Rightarrow> None
        | [n] \<Rightarrow> Some n
        | n # m # ns \<Rightarrow>
            (case fn of
               None \<Rightarrow> Some n
             | Some f \<Rightarrow>
                 if f \<noteq> [] \<and> stripExtension f \<noteq> [] \<and> stripExtension f \<in> set (n # m # ns)
                 then Some (stripExtension f) else Some n))"
proof (cases "truthy (defaultExport ei)")
  case True
  then show ?thesis by (simp add: pickPrimaryComponent_def)
next
  case False
  show ?thesis
  proof (cases "namedExports ei")
    case Nil
    with False show ?thesis
      by (simp add: pickPrimaryComponent_def Let_def find_equal split: option.splits)
  next
    case (Cons n rest)
    show ?thesis
    proof (cases rest)
      case Nil
      with False Cons show ?thesis by (simp add: pickPrimaryComponent_def)
    next
      case (Cons m ns)
      with False \<open>namedExports ei = n # rest\<close> show ?thesis
        by (cases fn) (auto simp: pickPrimaryComponent_def Let_def find_equal)
    qed
  qed
qed

text \<open>
  C4. The selector returns the default export when there is one; else the only named
  export when there is exactly one; else, when a (non-empty) file name is given, the named
  export equal to that file name without its extension, when there is such an export;
  else the first named export; else nothing. The extension is the last dot of the file
  name together with what follows it, provided that is not empty and holds no \<open>/\<close>:
  \<open>stripExtension\<close> removes exactly that, and nothing else of the file name.
\<close>

theorem pickPrimaryComponent_preference:
  "pickPrimaryComponent ei fn =
     (if truthy (defaultExport ei) then defaultExport ei
      else case namedExports ei of
          [] \<Rightarrow> None
        | [n] \<Rightarrow> Some n
        | n # m # ns \<Rightarrow>
            (case fn of
               None \<Rightarrow> Some n
             | Some f \<Rightarrow>
                 if f \<noteq> [] \<and> stripExtension f \<noteq> [] \<and> stripExtension f \<in> set (n # m # ns)
                 then Some (stripExtension f) else Some n))
   \<and> (\<forall>b e. e \<noteq> [] \<and> list_all extChar e \<longrightarrow> stripExtension (b @ ''.'' @ e) = b)
   \<and> (\<forall>f. (\<nexists>b e. f = b @ ''.'' @ e \<and> e \<noteq> [] \<and> list_all extChar e) \<longrightarrow> stripExtension f = f)"
  using pick_equation [of ei fn] stripExtension_cut stripExtension_keep by blast


theorem pickPrimaryComponent_preference_witness:
  "pickPrimaryComponent \<lparr>defaultExport = None, namedExports = [''Helper'', ''Counter'']\<rparr>
     (Some ''Counter.tsx'') = Some ''Counter''
   \<and> pickPrimaryComponent \<lparr>defaultExport = None, namedExports = [''Helper'', ''Counter'']\<rparr>
     (Some ''index.tsx'') = Some ''Helper''
   \<and> pickPrimaryComponent \<lparr>defaultExport = Some ''App'', namedExports = [''Helper'', ''Counter'']\<rparr>
     (Some ''Counter.tsx'') = Some ''App''
   \<and> stripExtension ''Counter.tsx'' = ''Counter''"
proof -
  have ext: "''tsx'' \<noteq> [] \<and> list_all extChar ''tsx''" by code_simp
  from pickPrimaryComponent_preference [of _ _] ext
  have strip: "stripExtension (''Counter'' @ ''.'' @ ''tsx'') = ''Counter''" by blast
  have strip': "stripExtension ''index.tsx'' = ''index''" by code_simp
  from strip have s: "stripExtension ''Counter.tsx'' = ''Counter''" by simp
  from pickPrimaryComponent_preference
    [of "\<lparr>defaultExport = None, namedExports = [''Helper'', ''Counter'']\<rparr>" "Some ''Counter.tsx''"] s
  have 1: "pickPrimaryComponent \<lparr>defaultExport = None, namedExports = [''Helper'', ''Counter'']\<rparr>
     (Some ''Counter.tsx'') = Some ''Counter''" by simp
  from pickPrimaryComponent_preference
    [of "\<lparr>defaultExport = None, namedExports = [''Helper'', ''Counter'']\<rparr>" "Some ''index.tsx''"] strip'
  have 2: "pickPrimaryComponent \<lparr>defaultExport = None, namedExports = [''Helper'', ''Counter'']\<rparr>
     (Some ''index.tsx'') = Some ''Helper''" by simp
  from pickPrimaryComponent_preference
    [of "\<lparr>defaultExport = Some ''App'', namedExports = [''Helper'', ''Counter'']\<rparr>" "Some ''Counter.tsx''"]
  have 3: "pickPrimaryComponent \<lparr>defaultExport = Some ''App'', namedExports = [''Helper'', ''Counter'']\<rparr>
     (Some ''Counter.tsx'') = Some ''App''" by simp
  from 1 2 3 s show ?thesis by blast
qed

subsection \<open>Hook classification and scope\<close>







subsection \<open>Columns, groups and edge kinds\<close>

lemma pushEach_total: "pushEach (\<lambda>x. Some (g x)) xs = map g xs"
  by (induction xs) simp_all

lemma nodeAtOrLast_nonempty:
  "ts \<noteq> [] \<Longrightarrow> nodeAtOrLast ts i = Some (if i < length ts then ts ! i else last ts)"
  by (simp add: nodeAtOrLast_def)

lemma connectSequential_nonempty:
  assumes "ts \<noteq> []"
  shows "connectSequential fs ts l =
     mapIndexed (\<lambda>fromNode i. flowEdge fromNode (if i < length ts then ts ! i else last ts) l) fs"
proof -
  have "(\<lambda>(index, fromNode). case nodeAtOrLast ts index of None \<Rightarrow> None
            | Some toNode \<Rightarrow> Some (flowEdge fromNode toNode l))
      = (\<lambda>p. Some ((\<lambda>(index, fromNode).
            flowEdge fromNode (if index < length ts then ts ! index else last ts) l) p))"
    by (rule ext) (simp add: nodeAtOrLast_nonempty [OF assms] split_def)
  then show ?thesis
    by (simp add: connectSequential_def mapIndexed_def pushEach_total)
qed

lemma mapPush_groups:
  "(\<Union>g \<in> set (mapPush m k v). set (snd g)) = insert v (\<Union>g \<in> set m. set (snd g))"
  by (induction m k v rule: mapPush.induct) auto

lemma jsxByDepth_fold_groups:
  "(\<Union>g \<in> set (foldl (\<lambda>m item. mapPush m (item_depth item) item) m0 items). set (snd g))
     = (\<Union>g \<in> set m0. set (snd g)) \<union> set items"
  by (induction items arbitrary: m0) (simp_all add: mapPush_groups)

lemma jsxByDepth_groups: "(\<Union>g \<in> set (jsxByDepth items). set (snd g)) = set items"
  by (simp add: jsxByDepth_def jsxByDepth_fold_groups)

lemma layoutJsxByDepth_set:
  "set (layoutJsxByDepth items x) =
     (\<Union>(d, grp) \<in> set (jsxByDepth items).
        {mkNode Jsx (grp ! i) x (80 + int d * 80 + int i * 32) | i. i < length grp})"
  by (auto simp: layoutJsxByDepth_def Let_def in_set_mapIndexed)

lemma layoutJsxByDepth_node:
  assumes "n \<in> set (layoutJsxByDepth items x)"
  obtains it y where "it \<in> set items" "n = mkNode Jsx it x y"
proof -
  from assms obtain d grp i where g: "(d, grp) \<in> set (jsxByDepth items)" and i: "i < length grp"
    and n: "n = mkNode Jsx (grp ! i) x (80 + int d * 80 + int i * 32)"
    unfolding layoutJsxByDepth_set by blast
  from g i have "grp ! i \<in> (\<Union>g \<in> set (jsxByDepth items). set (snd g))" by force
  then have "grp ! i \<in> set items" by (simp only: jsxByDepth_groups)
  with n that show ?thesis by blast
qed

lemma layoutJsxByDepth_complete:
  assumes "it \<in> set items"
  shows "\<exists>y. mkNode Jsx it x y \<in> set (layoutJsxByDepth items x)"
proof -
  from assms have "it \<in> (\<Union>g \<in> set (jsxByDepth items). set (snd g))"
    by (simp only: jsxByDepth_groups)
  then obtain d grp where g: "(d, grp) \<in> set (jsxByDepth items)" and "it \<in> set grp" by force
  then obtain i where "i < length grp" "grp ! i = it" by (auto simp: in_set_conv_nth)
  with g show ?thesis unfolding layoutJsxByDepth_set by blast
qed

lemma layoutJsxByDepth_kind:
  "n \<in> set (layoutJsxByDepth items x) \<Longrightarrow> node_kind n = Jsx"
  by (erule layoutJsxByDepth_node) simp

lemma filter_same_kind:
  "(\<And>n. n \<in> set ns \<Longrightarrow> node_kind n = k) \<Longrightarrow> filter (\<lambda>n. node_kind n = k) ns = ns"
  by (induction ns) auto

lemma filter_other_kind:
  "(\<And>n. n \<in> set ns \<Longrightarrow> node_kind n = k') \<Longrightarrow> k' \<noteq> k \<Longrightarrow> filter (\<lambda>n. node_kind n = k) ns = []"
  by (induction ns) auto

lemma columns_by_kind:
  assumes "\<And>n. n \<in> set inds \<Longrightarrow> node_kind n = Independent"
    and "\<And>n. n \<in> set sts \<Longrightarrow> node_kind n = State"
    and "\<And>n. n \<in> set effs \<Longrightarrow> node_kind n = Effect"
    and "\<And>n. n \<in> set jsxs \<Longrightarrow> node_kind n = Jsx"
  shows "filter (\<lambda>n. node_kind n = Independent) (inds @ sts @ effs @ jsxs) = inds"
    and "filter (\<lambda>n. node_kind n = State) (inds @ sts @ effs @ jsxs) = sts"
    and "filter (\<lambda>n. node_kind n = Effect) (inds @ sts @ effs @ jsxs) = effs"
    and "filter (\<lambda>n. node_kind n = Jsx) (inds @ sts @ effs @ jsxs) = jsxs"
  using assms
  by (simp_all add: filter_same_kind filter_other_kind [where k' = Independent]
      filter_other_kind [where k' = State] filter_other_kind [where k' = Effect]
      filter_other_kind [where k' = Jsx])


lemma nodes_by_kind_analysis:
  "independentNodesIn (buildGraphFromAnalysis (Some a)) =
     layoutColumnNodes (independentItems (ca_hooks a)) Independent 80 80 50"
  "stateNodesIn (buildGraphFromAnalysis (Some a)) =
     layoutColumnNodes (stateItems (ca_hooks a)) State 300 80 40"
  "jsxNodesIn (buildGraphFromAnalysis (Some a)) =
     layoutColumnNodes (jsxItems (ca_jsxNodes a)) Jsx 960 80 32"
  unfolding nodes_analysis
  by (rule columns_by_kind; erule layoutColumnNodes_kind)+

lemma nodes_by_kind_mapping:
  "independentNodesIn (buildGraphFromMappingResult (Some mr)) =
     layoutColumnNodes (independentItems (mr_hooks mr)) Independent 80 80 50"
  "stateNodesIn (buildGraphFromMappingResult (Some mr)) =
     layoutColumnNodes (stateItems (mr_hooks mr)) State 300 80 40"
  "jsxNodesIn (buildGraphFromMappingResult (Some mr)) =
     layoutJsxByDepth (jsxLayoutItems (mr_jsxNodes mr)) 960"
  unfolding nodes_mapping
  by (rule columns_by_kind; (erule layoutColumnNodes_kind | erule layoutJsxByDepth_kind))+

lemma connectSequential_shape:
  assumes "e \<in> set (connectSequential fs ts l)"
  shows "edge_kind e = Flow \<and> edge_label e = l \<and> prefix ''flow-'' (edge_id e)
       \<and> (\<exists>a \<in> set fs. nodeId (edge_from e) = node_id a)"
proof -
  from assms obtain i a b where ia: "(i, a) \<in> set (enumerate 0 fs)" and e: "e = flowEdge a b l"
    by (auto simp: connectSequential_def in_set_pushEach split: option.splits)
  from ia have "a \<in> set fs" by (auto simp: in_set_enumerate_eq)
  with e show ?thesis by (auto simp: flowEdge_def)
qed

lemma effectEdges_kind:
  assumes "e \<in> set (effectEdges effNodes sts eff)"
  shows "edge_kind e = StateDependency \<or> edge_kind e = StateMutation"
  using assms
proof (cases rule: effectEdges_cases)
  case (1 en d)
  from depEdge_SomeD [OF 1(3)] show ?thesis by force
next
  case (2 en s)
  from mutEdge_SomeD [OF 2(3)] show ?thesis by force
qed

lemma callbackEdges_kind:
  assumes "e \<in> set (callbackEdges effNodes sts cb)"
  shows "edge_kind e = StateMutation"
  using assms
proof (cases rule: callbackEdges_cases)
  case (1 cn s)
  from mutEdge_SomeD [OF 1(3)] show ?thesis by force
qed

lemma jsxPropEdges_kind:
  assumes "e \<in> set (jsxPropEdges sts inds j)"
  shows "edge_kind e = StateDependency"
proof -
  from assms obtain nm where "propEdge sts inds j nm = Some e"
    unfolding jsxPropEdges_def in_set_pushEach by blast
  from propEdge_SomeD [OF this] show ?thesis by force
qed

lemma filter_none: "(\<And>x. x \<in> set xs \<Longrightarrow> \<not> P x) \<Longrightarrow> filter P xs = []"
  by (induction xs) auto

lemma filter_all: "(\<And>x. x \<in> set xs \<Longrightarrow> P x) \<Longrightarrow> filter P xs = xs"
  by (induction xs) auto

lemma flow_filter_dataEdges:
  assumes "\<And>n. n \<in> set inds \<Longrightarrow> prefix ''independent-'' (node_id n)"
  shows "filter leavesIndependentColumn (dataEdges inds sts effs jsxs es cbs) =
     (if inds \<noteq> [] \<and> sts \<noteq> [] then connectSequential inds sts None else [])"
proof -
  have 1: "filter leavesIndependentColumn (connectSequential inds sts None)
      = connectSequential inds sts None"
  proof (rule filter_all)
    fix e assume "e \<in> set (connectSequential inds sts None)"
    from connectSequential_shape [OF this] assms show "leavesIndependentColumn e" by auto
  qed
  have 2: "filter leavesIndependentColumn (concat (map (effectEdges effs sts) es)) = []"
    by (rule filter_none) (auto dest: effectEdges_kind)
  have 3: "filter leavesIndependentColumn (concat (map (callbackEdges effs sts) cbs)) = []"
    by (rule filter_none) (auto dest: callbackEdges_kind)
  have 4: "filter leavesIndependentColumn (concat (map (jsxPropEdges sts inds) jsxs)) = []"
    by (rule filter_none) (auto dest: jsxPropEdges_kind)
  show ?thesis
    by (simp add: dataEdges_def 1 2 3 4)
qed

lemma independent_ids:
  "n \<in> set (layoutColumnNodes items Independent x s g) \<Longrightarrow> prefix ''independent-'' (node_id n)"
  by (auto simp: layoutColumnNodes_def in_set_mapIndexed)

lemma jsxTreeEdges_not_independent:
  assumes "e \<in> set (jsxTreeEdges (layoutJsxByDepth items x) js)"
  shows "\<not> prefix ''independent-'' (nodeId (edge_from e))"
proof -
  from jsxTreeEdges_endpoints [OF assms] obtain n where
    n: "n \<in> set (layoutJsxByDepth items x)" and e: "nodeId (edge_from e) = node_id n" by auto
  from n obtain it :: JsxLayoutItem and y where "n = mkNode Jsx it x y"
    by (rule layoutJsxByDepth_node)
  with e show ?thesis by simp
qed

lemma flow_edges_analysis:
  "filter leavesIndependentColumn (edges (buildGraphFromAnalysis (Some a))) =
     (if independentNodesIn (buildGraphFromAnalysis (Some a)) = []
         \<or> stateNodesIn (buildGraphFromAnalysis (Some a)) = [] then []
      else mapIndexed
        (\<lambda>fromNode i.
           flowEdge fromNode
             (if i < length (stateNodesIn (buildGraphFromAnalysis (Some a)))
              then stateNodesIn (buildGraphFromAnalysis (Some a)) ! i
              else last (stateNodesIn (buildGraphFromAnalysis (Some a)))) None)
        (independentNodesIn (buildGraphFromAnalysis (Some a))))"
  unfolding nodes_by_kind_analysis edges_analysis
  by (simp add: flow_filter_dataEdges independent_ids connectSequential_nonempty)

lemma flow_edges_mapping:
  "filter leavesIndependentColumn (edges (buildGraphFromMappingResult (Some mr))) =
     (if independentNodesIn (buildGraphFromMappingResult (Some mr)) = []
         \<or> stateNodesIn (buildGraphFromMappingResult (Some mr)) = [] then []
      else mapIndexed
        (\<lambda>fromNode i.
           flowEdge fromNode
             (if i < length (stateNodesIn (buildGraphFromMappingResult (Some mr)))
              then stateNodesIn (buildGraphFromMappingResult (Some mr)) ! i
              else last (stateNodesIn (buildGraphFromMappingResult (Some mr)))) None)
        (independentNodesIn (buildGraphFromMappingResult (Some mr))))"
proof -
  have "filter leavesIndependentColumn
      (jsxTreeEdges (layoutJsxByDepth (jsxLayoutItems (mr_jsxNodes mr)) 960) (mr_jsxNodes mr)) = []"
    by (rule filter_none) (auto dest: jsxTreeEdges_not_independent)
  then show ?thesis
    unfolding nodes_by_kind_mapping edges_mapping filter_append
    by (simp add: flow_filter_dataEdges independent_ids connectSequential_nonempty)
qed

lemma effectItems_ids: "map item_id (effectItems es cbs) = map effect_id es @ map cb_id cbs"
  by (simp add: effectItems_def comp_def)

lemma effect_column_ids:
  "map node_id (layoutColumnNodes (effectItems es cbs) Effect x s g) =
     map (\<lambda>e. ''effect-'' @ effect_id e) es @ map (\<lambda>c. ''effect-'' @ cb_id c) cbs"
proof -
  have "map node_id (layoutColumnNodes (effectItems es cbs) Effect x s g)
      = map (\<lambda>i. ''effect-'' @ i) (map item_id (effectItems es cbs))"
    by (simp add: layoutColumnNodes_ids comp_def)
  then show ?thesis by (simp add: effectItems_ids comp_def)
qed

lemma node_found_by_id:
  assumes "i \<in> set (map node_id ns)"
  shows "\<exists>n. find (\<lambda>n. node_id n = i) ns = Some n \<and> node_id n = i"
proof -
  from assms obtain n where "n \<in> set ns" "node_id n = i" by auto
  from find_exists [of n ns "\<lambda>n. node_id n = i", OF this] obtain y
    where y: "find (\<lambda>n. node_id n = i) ns = Some y" by blast
  from find_SomeD [OF y] y show ?thesis by blast
qed

lemma effect_node_found:
  assumes "eff \<in> set es"
  shows "\<exists>en. find (\<lambda>n. node_id n = ''effect-'' @ effect_id eff)
                 (layoutColumnNodes (effectItems es cbs) Effect x s g) = Some en
            \<and> node_id en = ''effect-'' @ effect_id eff"
  by (rule node_found_by_id) (use assms in \<open>simp add: effect_column_ids\<close>)

lemma callback_node_found:
  assumes "cb \<in> set cbs"
  shows "\<exists>cn. find (\<lambda>n. node_id n = ''effect-'' @ cb_id cb)
                 (layoutColumnNodes (effectItems es cbs) Effect x s g) = Some cn
            \<and> node_id cn = ''effect-'' @ cb_id cb"
  by (rule node_found_by_id) (use assms in \<open>simp add: effect_column_ids\<close>)

lemma mutation_edge_of_effect:
  assumes "eff \<in> set es" "s \<in> set (setters eff)"
    and "findStateNode sts (stateNameOf s) = Some sn"
    and effs: "effs = layoutColumnNodes (effectItems es cbs) Effect x y g"
  shows "\<exists>e \<in> set (dataEdges inds sts effs jsxs es cbs).
           edge_kind e = StateMutation \<and> edge_label e = Some s
           \<and> nodeId (edge_from e) = ''effect-'' @ effect_id eff
           \<and> nodeId (edge_to e) = node_id sn"
proof -
  from effect_node_found [OF assms(1), of cbs x y g] obtain en where
    en: "find (\<lambda>n. node_id n = ''effect-'' @ effect_id eff) effs = Some en"
    and id: "node_id en = ''effect-'' @ effect_id eff" unfolding effs by blast
  let ?e = "mkEdge (''mut-'' @ node_id en @ ''-'' @ node_id sn @ ''-'' @ s) en sn StateMutation (Some s)"
  have "mutEdge ''mut-'' sts en s = Some ?e" by (simp add: mutEdge_def assms(3))
  with assms(2) have "?e \<in> set (pushEach (mutEdge ''mut-'' sts en) (setters eff))"
    unfolding in_set_pushEach by blast
  then have "?e \<in> set (effectEdges effs sts eff)" unfolding effectEdges_def en by simp
  with assms(1) have "?e \<in> set (dataEdges inds sts effs jsxs es cbs)"
    by (auto simp: dataEdges_def)
  then show ?thesis using id by (intro bexI [of _ ?e]) simp_all
qed

lemma mutation_edge_of_callback:
  assumes "cb \<in> set cbs" "s \<in> set (cb_setters cb)"
    and "findStateNode sts (stateNameOf s) = Some sn"
    and effs: "effs = layoutColumnNodes (effectItems es cbs) Effect x y g"
  shows "\<exists>e \<in> set (dataEdges inds sts effs jsxs es cbs).
           edge_kind e = StateMutation \<and> edge_label e = Some s
           \<and> nodeId (edge_from e) = ''effect-'' @ cb_id cb
           \<and> nodeId (edge_to e) = node_id sn"
proof -
  from callback_node_found [OF assms(1), of es x y g] obtain cn where
    cn: "find (\<lambda>n. node_id n = ''effect-'' @ cb_id cb) effs = Some cn"
    and id: "node_id cn = ''effect-'' @ cb_id cb" unfolding effs by blast
  let ?e = "mkEdge (''cb-mut-'' @ node_id cn @ ''-'' @ node_id sn @ ''-'' @ s) cn sn StateMutation (Some s)"
  have "mutEdge ''cb-mut-'' sts cn s = Some ?e" by (simp add: mutEdge_def assms(3))
  with assms(2) have "?e \<in> set (pushEach (mutEdge ''cb-mut-'' sts cn) (cb_setters cb))"
    unfolding in_set_pushEach by blast
  then have "?e \<in> set (callbackEdges effs sts cb)" unfolding callbackEdges_def cn by simp
  with assms(1) have "?e \<in> set (dataEdges inds sts effs jsxs es cbs)"
    by (auto simp: dataEdges_def)
  then show ?thesis using id by (intro bexI [of _ ?e]) simp_all
qed

lemma mutation_edges_matched:
  assumes "e \<in> set (dataEdges inds sts effs jsxs es cbs)" "edge_kind e = StateMutation"
    and "edge_label e = Some s"
  shows "findStateNode sts (stateNameOf s) \<noteq> None"
proof -
  consider (flow) "e \<in> set (connectSequential inds sts None)"
    | (eff) eff where "e \<in> set (effectEdges effs sts eff)"
    | (cb) cb where "e \<in> set (callbackEdges effs sts cb)"
    | (pr) j where "e \<in> set (jsxPropEdges sts inds j)"
    using assms(1) by (auto simp: dataEdges_def split: if_splits)
  then show ?thesis
  proof cases
    case flow
    from connectSequential_shape [OF this] assms(2) show ?thesis by simp
  next
    case eff
    then show ?thesis
    proof (cases rule: effectEdges_cases)
      case (1 en d)
      from depEdge_SomeD [OF 1(3)] assms(2) show ?thesis by force
    next
      case (2 en s')
      from mutEdge_SomeD [OF 2(3)] assms(3) show ?thesis by force
    qed
  next
    case cb
    then show ?thesis
    proof (cases rule: callbackEdges_cases)
      case (1 cn s')
      from mutEdge_SomeD [OF 1(3)] assms(3) show ?thesis by force
    qed
  next
    case pr
    from jsxPropEdges_kind [OF this] assms(2) show ?thesis by simp
  qed
qed

lemma jsxTreeEdges_kind:
  assumes "e \<in> set (jsxTreeEdges jsxs js)"
  shows "edge_kind e = Flow \<and> edge_label e = None \<and> prefix ''jsx-tree-'' (edge_id e)"
proof -
  from assms obtain j where "treeEdge (jsxNodeMap jsxs) j = Some e"
    unfolding jsxTreeEdges_def in_set_pushEach by blast
  from treeEdge_SomeD [OF this] show ?thesis by force
qed

lemma stateNameOf_setter:
  assumes "isUpperAZ u" "list_all (\<lambda>c. \<not> lineTerminator c) rest"
  shows "stateNameOf (''set'' @ u # rest) = lowerChar u # rest"
proof -
  from assms(2) have "takeWhile (\<lambda>ch. \<not> lineTerminator ch) rest = rest"
    by (simp add: takeWhile_eq_all_conv list_all_iff)
  with assms(1) show ?thesis by simp
qed

lemma stateNameOf_other:
  assumes "\<nexists>u rest. s = ''set'' @ u # rest \<and> isUpperAZ u"
  shows "stateNameOf s = s"
  using assms by (cases s rule: stateNameOf.cases) auto

subsection \<open>Sequential-flow edges\<close>

text \<open>
  C7. The sequential-flow edges of a layout are, in order, one edge per independent node:
  the independent node at index \<open>i\<close> is joined to the state node at index \<open>i\<close>, and to
  the last state node when there is no state node at that index. When the layout has no
  independent node or no state node there is no such edge.
\<close>

theorem flow_edges_pair_by_index:
  assumes "L = buildGraphFromMappingResult (Some mr) \<or> L = buildGraphFromAnalysis (Some a)"
  shows "filter leavesIndependentColumn (edges L) =
     (if independentNodesIn L = [] \<or> stateNodesIn L = [] then []
      else mapIndexed
        (\<lambda>fromNode i.
           flowEdge fromNode
             (if i < length (stateNodesIn L) then stateNodesIn L ! i else last (stateNodesIn L))
             None)
        (independentNodesIn L))"
  using assms flow_edges_mapping [of mr] flow_edges_analysis [of a] by blast


theorem flow_edges_pair_by_index_witness:
  "map (\<lambda>e. (nodeId (edge_from e), nodeId (edge_to e)))
     (filter leavesIndependentColumn (edges (buildGraphFromMappingResult (Some counterMapping))))
   = [(''independent-hook-3'', ''state-hook-1''), (''independent-hook-4'', ''state-hook-2''),
      (''independent-hook-5'', ''state-hook-2'')]"
proof -
  note pairing = flow_edges_pair_by_index [of "buildGraphFromMappingResult (Some counterMapping)"
      counterMapping counterAnalysis, OF disjI1, OF refl]
  show ?thesis unfolding pairing by code_simp
qed

subsection \<open>State-mutation edges\<close>

lemma findStateNode_prefix:
  "findStateNode sts nm = find (\<lambda>n. prefix nm (node_label n)) sts"
  by (simp add: findStateNode_def startsWith_def)

lemma mutation_edges_layout:
  assumes L: "edges L = dataEdges inds (stateNodesIn L) effs jsxs es cbs @ trees"
    and effs: "effs = layoutColumnNodes (effectItems es cbs) Effect x y g"
    and trees: "\<And>e. e \<in> set trees \<Longrightarrow> edge_kind e = Flow"
    and src: "(\<exists>eff \<in> set es. s \<in> set (setters eff) \<and> src = ''effect-'' @ effect_id eff)
            \<or> (\<exists>cb \<in> set cbs. s \<in> set (cb_setters cb) \<and> src = ''effect-'' @ cb_id cb)"
  shows "(\<forall>n. find (\<lambda>n. prefix (stateNameOf s) (node_label n)) (stateNodesIn L) = Some n \<longrightarrow>
            (\<exists>e \<in> set (edges L). edge_kind e = StateMutation \<and> edge_label e = Some s
               \<and> nodeId (edge_from e) = src \<and> nodeId (edge_to e) = node_id n))
       \<and> (find (\<lambda>n. prefix (stateNameOf s) (node_label n)) (stateNodesIn L) = None \<longrightarrow>
            \<not> (\<exists>e \<in> set (edges L). edge_kind e = StateMutation \<and> edge_label e = Some s))"
proof (intro conjI allI impI)
  fix n
  assume "find (\<lambda>n. prefix (stateNameOf s) (node_label n)) (stateNodesIn L) = Some n"
  then have n: "findStateNode (stateNodesIn L) (stateNameOf s) = Some n"
    by (simp only: findStateNode_prefix)
  from src have "\<exists>e \<in> set (dataEdges inds (stateNodesIn L) effs jsxs es cbs).
      edge_kind e = StateMutation \<and> edge_label e = Some s
      \<and> nodeId (edge_from e) = src \<and> nodeId (edge_to e) = node_id n"
  proof
    assume "\<exists>eff \<in> set es. s \<in> set (setters eff) \<and> src = ''effect-'' @ effect_id eff"
    then obtain eff where "eff \<in> set es" "s \<in> set (setters eff)"
      and [simp]: "src = ''effect-'' @ effect_id eff" by blast
    from mutation_edge_of_effect [OF this(1,2) n effs] show ?thesis by simp
  next
    assume "\<exists>cb \<in> set cbs. s \<in> set (cb_setters cb) \<and> src = ''effect-'' @ cb_id cb"
    then obtain cb where "cb \<in> set cbs" "s \<in> set (cb_setters cb)"
      and [simp]: "src = ''effect-'' @ cb_id cb" by blast
    from mutation_edge_of_callback [OF this(1,2) n effs] show ?thesis by simp
  qed
  then show "\<exists>e \<in> set (edges L). edge_kind e = StateMutation \<and> edge_label e = Some s
      \<and> nodeId (edge_from e) = src \<and> nodeId (edge_to e) = node_id n"
    unfolding L by auto
next
  assume "find (\<lambda>n. prefix (stateNameOf s) (node_label n)) (stateNodesIn L) = None"
  then have none: "findStateNode (stateNodesIn L) (stateNameOf s) = None"
    by (simp only: findStateNode_prefix)
  show "\<not> (\<exists>e \<in> set (edges L). edge_kind e = StateMutation \<and> edge_label e = Some s)"
  proof
    assume "\<exists>e \<in> set (edges L). edge_kind e = StateMutation \<and> edge_label e = Some s"
    then obtain e where e: "e \<in> set (edges L)" "edge_kind e = StateMutation" "edge_label e = Some s"
      by blast
    from e(1,2) trees have "e \<in> set (dataEdges inds (stateNodesIn L) effs jsxs es cbs)"
      unfolding L by auto
    from mutation_edges_matched [OF this e(2,3)] none show False by simp
  qed
qed

text \<open>
  C6. Let \<open>s\<close> be a mutation name recorded on an effect or callback fact and \<open>src\<close> the
  identity of that fact's node. The candidate state name \<open>stateNameOf s\<close> is \<open>s\<close> without
  its \<open>set\<close> prefix and with the following capital letter in lower case when \<open>s\<close> is
  \<open>set\<close> followed by a capital letter (names hold no line terminator), and \<open>s\<close> itself
  otherwise. If \<open>n\<close> is the first state node whose label starts with the candidate, the
  layout has a state-mutation edge labelled \<open>s\<close> from \<open>src\<close> to \<open>n\<close>; if no state
  node's label starts with the candidate, the layout has no state-mutation edge labelled
  \<open>s\<close> at all.
\<close>

theorem state_mutation_edges:
  assumes "L = buildGraphFromMappingResult (Some mr) \<and> es = mr_effects mr \<and> cbs = mr_callbacks mr
         \<or> L = buildGraphFromAnalysis (Some a) \<and> es = ca_effects a \<and> cbs = ca_callbacks a"
    and "(\<exists>eff \<in> set es. s \<in> set (setters eff) \<and> src = ''effect-'' @ effect_id eff)
         \<or> (\<exists>cb \<in> set cbs. s \<in> set (cb_setters cb) \<and> src = ''effect-'' @ cb_id cb)"
  shows "(\<forall>u rest. s = ''set'' @ u # rest \<and> isUpperAZ u \<and> list_all (\<lambda>c. \<not> lineTerminator c) rest
            \<longrightarrow> stateNameOf s = lowerChar u # rest)
       \<and> ((\<nexists>u rest. s = ''set'' @ u # rest \<and> isUpperAZ u) \<longrightarrow> stateNameOf s = s)
       \<and> (\<forall>n. find (\<lambda>n. prefix (stateNameOf s) (node_label n)) (stateNodesIn L) = Some n \<longrightarrow>
            (\<exists>e \<in> set (edges L). edge_kind e = StateMutation \<and> edge_label e = Some s
               \<and> nodeId (edge_from e) = src \<and> nodeId (edge_to e) = node_id n))
       \<and> (find (\<lambda>n. prefix (stateNameOf s) (node_label n)) (stateNodesIn L) = None \<longrightarrow>
            \<not> (\<exists>e \<in> set (edges L). edge_kind e = StateMutation \<and> edge_label e = Some s))"
proof -
  have name1: "\<forall>u rest. s = ''set'' @ u # rest \<and> isUpperAZ u
      \<and> list_all (\<lambda>c. \<not> lineTerminator c) rest \<longrightarrow> stateNameOf s = lowerChar u # rest"
    using stateNameOf_setter by blast
  have name2: "(\<nexists>u rest. s = ''set'' @ u # rest \<and> isUpperAZ u) \<longrightarrow> stateNameOf s = s"
    using stateNameOf_other by blast
  from assms(1) have "(\<forall>n. find (\<lambda>n. prefix (stateNameOf s) (node_label n)) (stateNodesIn L) = Some n \<longrightarrow>
            (\<exists>e \<in> set (edges L). edge_kind e = StateMutation \<and> edge_label e = Some s
               \<and> nodeId (edge_from e) = src \<and> nodeId (edge_to e) = node_id n))
       \<and> (find (\<lambda>n. prefix (stateNameOf s) (node_label n)) (stateNodesIn L) = None \<longrightarrow>
            \<not> (\<exists>e \<in> set (edges L). edge_kind e = StateMutation \<and> edge_label e = Some s))"
  proof
    assume m: "L = buildGraphFromMappingResult (Some mr) \<and> es = mr_effects mr \<and> cbs = mr_callbacks mr"
    show ?thesis
    proof (rule mutation_edges_layout [OF _ _ _ assms(2)])
      show "edges L = dataEdges (layoutColumnNodes (independentItems (mr_hooks mr)) Independent 80 80 50)
          (stateNodesIn L) (layoutColumnNodes (effectItems es cbs) Effect 740 80 40)
          (layoutJsxByDepth (jsxLayoutItems (mr_jsxNodes mr)) 960) es cbs
          @ jsxTreeEdges (layoutJsxByDepth (jsxLayoutItems (mr_jsxNodes mr)) 960) (mr_jsxNodes mr)"
        using m by (simp add: nodes_by_kind_mapping edges_mapping)
      show "layoutColumnNodes (effectItems es cbs) Effect 740 80 40
          = layoutColumnNodes (effectItems es cbs) Effect 740 80 40" ..
      show "edge_kind e = Flow"
        if "e \<in> set (jsxTreeEdges (layoutJsxByDepth (jsxLayoutItems (mr_jsxNodes mr)) 960) (mr_jsxNodes mr))"
        for e using jsxTreeEdges_kind [OF that] by simp
    qed
  next
    assume m: "L = buildGraphFromAnalysis (Some a) \<and> es = ca_effects a \<and> cbs = ca_callbacks a"
    show ?thesis
    proof (rule mutation_edges_layout [OF _ _ _ assms(2)])
      show "edges L = dataEdges (layoutColumnNodes (independentItems (ca_hooks a)) Independent 80 80 50)
          (stateNodesIn L) (layoutColumnNodes (effectItems es cbs) Effect 740 80 40)
          (layoutColumnNodes (jsxItems (ca_jsxNodes a)) Jsx 960 80 32) es cbs @ []"
        using m by (simp add: nodes_by_kind_analysis edges_analysis)
      show "layoutColumnNodes (effectItems es cbs) Effect 740 80 40
          = layoutColumnNodes (effectItems es cbs) Effect 740 80 40" ..
      show "edge_kind e = Flow" if "e \<in> set []" for e :: GraphEdge using that by simp
    qed
  qed
  with name1 name2 show ?thesis by blast
qed


theorem state_mutation_edges_witness:
  "stateNameOf ''setCount'' = ''count''
   \<and> (\<exists>e \<in> set (edges (buildGraphFromMappingResult (Some counterMapping))).
          edge_kind e = StateMutation \<and> edge_label e = Some ''setCount''
          \<and> nodeId (edge_from e) = ''effect-effect-1'' \<and> nodeId (edge_to e) = ''state-hook-1'')
   \<and> \<not> (\<exists>e \<in> set (edges (buildGraphFromMappingResult (Some counterMapping))).
          edge_kind e = StateMutation \<and> edge_label e = Some ''setMissing'')"
proof -
  let ?L = "buildGraphFromMappingResult (Some counterMapping)"
  let ?n = "\<lparr>node_id = ''state-hook-1'', node_label = ''count'', node_kind = State, node_x = 300,
      node_y = 80, node_width = 120, node_height = 32, node_meta = HookMeta UseState Local\<rparr>"
  have built: "?L = buildGraphFromMappingResult (Some counterMapping)
      \<and> mr_effects counterMapping = mr_effects counterMapping
      \<and> mr_callbacks counterMapping = mr_callbacks counterMapping
    \<or> ?L = buildGraphFromAnalysis (Some counterAnalysis)
      \<and> mr_effects counterMapping = ca_effects counterAnalysis
      \<and> mr_callbacks counterMapping = ca_callbacks counterAnalysis" by simp
  have upper: "isUpperAZ (CHR ''C'')" by code_simp
  have plain: "list_all (\<lambda>c. \<not> lineTerminator c) ''ount''" by code_simp
  have lower: "lowerChar (CHR ''C'') = CHR ''c''" by code_simp
  have recorded: "(\<exists>eff \<in> set (mr_effects counterMapping).
        ''setCount'' \<in> set (setters eff) \<and> ''effect-effect-1'' = ''effect-'' @ effect_id eff)
      \<or> (\<exists>cb \<in> set (mr_callbacks counterMapping).
        ''setCount'' \<in> set (cb_setters cb) \<and> ''effect-effect-1'' = ''effect-'' @ cb_id cb)"
    by (simp add: counterMapping_def counterEffect_def)
  have recorded': "(\<exists>eff \<in> set (mr_effects counterMapping).
        ''setMissing'' \<in> set (setters eff) \<and> ''effect-effect-1'' = ''effect-'' @ effect_id eff)
      \<or> (\<exists>cb \<in> set (mr_callbacks counterMapping).
        ''setMissing'' \<in> set (cb_setters cb) \<and> ''effect-effect-1'' = ''effect-'' @ cb_id cb)"
    by (simp add: counterMapping_def counterEffect_def)
  have found: "find (\<lambda>n. prefix (stateNameOf ''setCount'') (node_label n)) (stateNodesIn ?L) = Some ?n"
    by code_simp
  have missing: "find (\<lambda>n. prefix (stateNameOf ''setMissing'') (node_label n)) (stateNodesIn ?L) = None"
    by code_simp
  from state_mutation_edges [OF built recorded] upper plain lower
  have 1: "stateNameOf ''setCount'' = ''count''" by simp
  from state_mutation_edges [OF built recorded] found
  have 2: "\<exists>e \<in> set (edges ?L). edge_kind e = StateMutation \<and> edge_label e = Some ''setCount''
          \<and> nodeId (edge_from e) = ''effect-effect-1'' \<and> nodeId (edge_to e) = ''state-hook-1''"
    by simp
  from state_mutation_edges [OF built recorded'] missing
  have 3: "\<not> (\<exists>e \<in> set (edges ?L). edge_kind e = StateMutation \<and> edge_label e = Some ''setMissing'')"
    by blast
  from 1 2 3 show ?thesis by blast
qed

subsection \<open>Canvas size\<close>

lemma size_analysis:
  "width (buildGraphFromAnalysis (Some a)) = 1160"
  "colX (buildGraphFromAnalysis (Some a)) =
     \<lparr>col_independent = 80, col_state = 300, col_variable = 520, col_effect = 740, col_jsx = 960\<rparr>"
  "height (buildGraphFromAnalysis (Some a)) =
     lastJsxY (layoutColumnNodes (jsxItems (ca_jsxNodes a)) Jsx 960 80 32) + 120"
  by (simp_all add: buildGraphFromAnalysis_def buildColumnX_def Let_def)

lemma size_mapping:
  "width (buildGraphFromMappingResult (Some mr)) = 1160"
  "colX (buildGraphFromMappingResult (Some mr)) =
     \<lparr>col_independent = 80, col_state = 300, col_variable = 520, col_effect = 740, col_jsx = 960\<rparr>"
  "height (buildGraphFromMappingResult (Some mr)) =
     lastJsxY (layoutJsxByDepth (jsxLayoutItems (mr_jsxNodes mr)) 960) + 120"
  by (simp_all add: buildGraphFromMappingResult_def buildColumnX_def Let_def)

text \<open>
  C3 (as the code has it). For a non-absent input the column positions are the five fixed
  ones, the width is the position of the element column, the rightmost one, plus 200, and
  the height is the \<open>y\<close> of the last element node of the layout plus 120; it is
  720 = 600 + 120 whenever the layout has no element node, whatever other nodes it has.
\<close>

theorem canvas_size:
  assumes "L = buildGraphFromMappingResult (Some mr) \<or> L = buildGraphFromAnalysis (Some a)"
  shows "colX L = \<lparr>col_independent = 80, col_state = 300, col_variable = 520,
                    col_effect = 740, col_jsx = 960\<rparr>
       \<and> width L = col_jsx (colX L) + 200
       \<and> height L = (if jsxNodesIn L = [] then 720 else node_y (last (jsxNodesIn L)) + 120)"
  using assms
proof
  assume "L = buildGraphFromMappingResult (Some mr)"
  then show ?thesis
    by (simp add: size_mapping nodes_by_kind_mapping lastJsxY_def)
next
  assume "L = buildGraphFromAnalysis (Some a)"
  then show ?thesis
    by (simp add: size_analysis nodes_by_kind_analysis lastJsxY_def)
qed


theorem canvas_size_witness:
  "width (buildGraphFromMappingResult (Some counterMapping)) = 1160
   \<and> height (buildGraphFromMappingResult (Some counterMapping)) = 360
   \<and> height (buildGraphFromAnalysis (Some stateOnlyAnalysis)) = 720"
proof -
  have m: "jsxNodesIn (buildGraphFromMappingResult (Some counterMapping)) \<noteq> []
      \<and> node_y (last (jsxNodesIn (buildGraphFromMappingResult (Some counterMapping)))) = 240"
    by code_simp
  have a: "jsxNodesIn (buildGraphFromAnalysis (Some stateOnlyAnalysis)) = []"
    by code_simp
  from canvas_size [of "buildGraphFromMappingResult (Some counterMapping)" counterMapping
      stateOnlyAnalysis] m
  have "width (buildGraphFromMappingResult (Some counterMapping)) = 1160
      \<and> height (buildGraphFromMappingResult (Some counterMapping)) = 360" by simp
  moreover from canvas_size [of "buildGraphFromAnalysis (Some stateOnlyAnalysis)" counterMapping
      stateOnlyAnalysis] a
  have "height (buildGraphFromAnalysis (Some stateOnlyAnalysis)) = 720" by simp
  ultimately show ?thesis by blast
qed

text \<open>
  The height is not taken from the lowest node of the layout. A layout whose only node is
  a state node at \<open>y = 80\<close> has height 720, not 200; and in the depth-grouped layout of
  the list component the last element node (\<open>y = 240\<close>) lies above the lowest one
  (\<open>y = 256\<close>), so the height is 360, not 376.
\<close>

theorem height_not_from_lowest_node:
  "map node_y (nodes (buildGraphFromAnalysis (Some stateOnlyAnalysis))) = [80]
   \<and> height (buildGraphFromAnalysis (Some stateOnlyAnalysis)) = 720
   \<and> map node_y (nodes (buildGraphFromMappingResult (Some wideMapping)))
       = [80, 160, 192, 224, 256, 240]
   \<and> height (buildGraphFromMappingResult (Some wideMapping)) = 360"
  by code_simp


subsection \<open>Structural edges\<close>

lemma logicalId_jsx [simp]:
  "logicalId (CHR ''j'' # CHR ''s'' # CHR ''x'' # CHR ''-'' # i) = i"
  by (simp add: logicalId_def)

lemma jsxNodeMap_fold_val:
  "fold (\<lambda>node m. m(logicalId (node_id node) \<mapsto> node)) ns m0 k = Some n
   \<Longrightarrow> (n \<in> set ns \<and> logicalId (node_id n) = k) \<or> m0 k = Some n"
proof (induction ns arbitrary: m0)
  case Nil
  then show ?case by simp
next
  case (Cons a ns)
  from Cons.IH [of "m0(logicalId (node_id a) \<mapsto> a)"] Cons.prems
  show ?case by (auto split: if_splits)
qed

lemma jsxNodeMap_fold_key:
  "(\<exists>n \<in> set ns. logicalId (node_id n) = k) \<or> m0 k \<noteq> None
   \<Longrightarrow> fold (\<lambda>node m. m(logicalId (node_id node) \<mapsto> node)) ns m0 k \<noteq> None"
proof (induction ns arbitrary: m0)
  case Nil
  then show ?case by simp
next
  case (Cons a ns)
  from Cons.prems have "(\<exists>n \<in> set ns. logicalId (node_id n) = k)
      \<or> (m0(logicalId (node_id a) \<mapsto> a)) k \<noteq> None" by auto
  with Cons.IH [of "m0(logicalId (node_id a) \<mapsto> a)"] show ?case by simp
qed

lemma jsx_lookup:
  assumes "i \<in> jsx_id ` set js"
  shows "\<exists>n. jsxNodeMap (layoutJsxByDepth (jsxLayoutItems js) x) i = Some n
           \<and> node_id n = ''jsx-'' @ i"
proof -
  let ?jsxs = "layoutJsxByDepth (jsxLayoutItems js) x"
  from assms obtain j where j: "j \<in> set js" "jsx_id j = i" by auto
  let ?it = "\<lparr>item_id = jsx_id j, item_label = component j,
      item_meta = JsxMeta (depth j) (props j), item_depth = depth j\<rparr>"
  from j(1) have "?it \<in> set (jsxLayoutItems js)" by (auto simp: jsxLayoutItems_def)
  from layoutJsxByDepth_complete [OF this, of x] obtain y
    where "mkNode Jsx ?it x y \<in> set ?jsxs" by blast
  then have "\<exists>n \<in> set ?jsxs. logicalId (node_id n) = i"
    using j(2) by (intro bexI [of _ "mkNode Jsx ?it x y"]) simp_all
  then have "jsxNodeMap ?jsxs i \<noteq> None"
    unfolding jsxNodeMap_def by (intro jsxNodeMap_fold_key) blast
  then obtain n where n: "jsxNodeMap ?jsxs i = Some n" by blast
  from jsxNodeMap_fold_val [OF n [unfolded jsxNodeMap_def]]
  have mem: "n \<in> set ?jsxs" and key: "logicalId (node_id n) = i" by simp_all
  from mem obtain it :: JsxLayoutItem and y' where "n = mkNode Jsx it x y'"
    by (rule layoutJsxByDepth_node)
  with key have "node_id n = ''jsx-'' @ i" by simp
  with n show ?thesis by blast
qed

lemma structural_edge_present:
  assumes "j \<in> set js" "parentId j = Some p" "p \<noteq> []" "p \<in> jsx_id ` set js"
  shows "\<exists>e \<in> set (jsxTreeEdges (layoutJsxByDepth (jsxLayoutItems js) x) js).
           nodeId (edge_from e) = ''jsx-'' @ p \<and> nodeId (edge_to e) = ''jsx-'' @ jsx_id j
           \<and> edge_kind e = Flow \<and> edge_label e = None
           \<and> edge_id e = ''jsx-tree-jsx-'' @ p @ ''-jsx-'' @ jsx_id j"
proof -
  let ?m = "jsxNodeMap (layoutJsxByDepth (jsxLayoutItems js) x)"
  from jsx_lookup [OF assms(4), of x] obtain pn
    where pn: "?m p = Some pn" "node_id pn = ''jsx-'' @ p" by blast
  from assms(1) have "jsx_id j \<in> jsx_id ` set js" by simp
  from jsx_lookup [OF this, of x] obtain cn
    where cn: "?m (jsx_id j) = Some cn" "node_id cn = ''jsx-'' @ jsx_id j" by blast
  let ?e = "mkEdge (''jsx-tree-'' @ node_id pn @ ''-'' @ node_id cn) pn cn Flow None"
  have "treeEdge ?m j = Some ?e"
    by (simp add: treeEdge_def assms(2,3) pn(1) cn(1))
  with assms(1) have "?e \<in> set (jsxTreeEdges (layoutJsxByDepth (jsxLayoutItems js) x) js)"
    unfolding jsxTreeEdges_def in_set_pushEach by blast
  then show ?thesis
    by (intro bexI [of _ ?e]) (simp_all add: pn(2) cn(2))
qed

lemma sequential_edge_shape:
  assumes "f \<in> set (edges (buildGraphFromMappingResult (Some mr)))" "leavesIndependentColumn f"
  shows "edge_label f = None \<and> prefix ''flow-'' (edge_id f)"
proof -
  from assms have "f \<in> set (filter leavesIndependentColumn
      (edges (buildGraphFromMappingResult (Some mr))))" by simp
  then obtain a b where "f = flowEdge a b None"
    unfolding flow_edges_mapping by (auto simp: in_set_mapIndexed split: if_splits)
  then show ?thesis by (simp add: flowEdge_def)
qed

lemma jsxLayoutItems_ids: "item_id ` set (jsxLayoutItems js) = jsx_id ` set js"
  by (auto simp: jsxLayoutItems_def image_iff)

lemma jsx_node_key:
  assumes "jsxNodeMap (layoutJsxByDepth (jsxLayoutItems js) x) k = Some n"
  shows "node_id n = ''jsx-'' @ k \<and> k \<in> jsx_id ` set js"
proof -
  from jsxNodeMap_fold_val [OF assms [unfolded jsxNodeMap_def]]
  have mem: "n \<in> set (layoutJsxByDepth (jsxLayoutItems js) x)"
    and key: "logicalId (node_id n) = k" by simp_all
  from mem obtain it :: JsxLayoutItem and y where it: "it \<in> set (jsxLayoutItems js)"
    and n: "n = mkNode Jsx it x y" by (rule layoutJsxByDepth_node)
  from key n have k: "item_id it = k" by simp
  from it have "item_id it \<in> jsx_id ` set js"
    using jsxLayoutItems_ids [of js] by blast
  with k n show ?thesis by simp
qed

lemma structural_edge_origin:
  assumes "e \<in> set (jsxTreeEdges (layoutJsxByDepth (jsxLayoutItems js) x) js)"
  shows "\<exists>j \<in> set js. \<exists>p. parentId j = Some p \<and> p \<noteq> [] \<and> p \<in> jsx_id ` set js
           \<and> nodeId (edge_from e) = ''jsx-'' @ p \<and> nodeId (edge_to e) = ''jsx-'' @ jsx_id j"
proof -
  let ?m = "jsxNodeMap (layoutJsxByDepth (jsxLayoutItems js) x)"
  from assms obtain j where j: "j \<in> set js" and t: "treeEdge ?m j = Some e"
    unfolding jsxTreeEdges_def in_set_pushEach by blast
  from treeEdge_SomeD [OF t] obtain p pn cn where p: "parentId j = Some p" "p \<noteq> []"
    and pn: "?m p = Some pn" and cn: "?m (jsx_id j) = Some cn"
    and e: "e = mkEdge (''jsx-tree-'' @ node_id pn @ ''-'' @ node_id cn) pn cn Flow None"
    by blast
  from jsx_node_key [OF pn] jsx_node_key [OF cn] e
  have "p \<in> jsx_id ` set js \<and> nodeId (edge_from e) = ''jsx-'' @ p
      \<and> nodeId (edge_to e) = ''jsx-'' @ jsx_id j" by simp
  with j p show ?thesis by blast
qed

lemma column_ids_not_jsx:
  assumes "n \<in> set (layoutColumnNodes items k x s g)" "k \<noteq> Jsx"
  shows "\<not> prefix ''jsx-'' (node_id n)"
proof -
  from assms(1) obtain it :: "'a Item_scheme" where "node_id n = kindName k @ ''-'' @ item_id it"
    by (auto simp: layoutColumnNodes_def in_set_mapIndexed)
  with assms(2) show ?thesis by (cases k) simp_all
qed

lemma dataEdges_source:
  assumes "e \<in> set (dataEdges inds sts effs jsxs es cbs)"
  shows "nodeId (edge_from e) \<in> node_id ` (set inds \<union> set sts \<union> set effs)"
proof -
  consider (flow) "e \<in> set (connectSequential inds sts None)"
    | (eff) eff where "e \<in> set (effectEdges effs sts eff)"
    | (cb) cb where "e \<in> set (callbackEdges effs sts cb)"
    | (pr) j where "e \<in> set (jsxPropEdges sts inds j)"
    using assms by (auto simp: dataEdges_def split: if_splits)
  then show ?thesis
  proof cases
    case flow
    from connectSequential_endpoints [OF this] show ?thesis by blast
  next
    case eff
    from effectEdges_endpoints [OF this] show ?thesis by blast
  next
    case cb
    from callbackEdges_endpoints [OF this] show ?thesis by blast
  next
    case pr
    from jsxPropEdges_endpoints [OF this] show ?thesis by blast
  qed
qed

lemma element_source_mapping:
  assumes "e \<in> set (edges (buildGraphFromMappingResult (Some mr)))"
    and "prefix ''jsx-'' (nodeId (edge_from e))"
  shows "e \<in> set (jsxTreeEdges (layoutJsxByDepth (jsxLayoutItems (mr_jsxNodes mr)) 960)
                    (mr_jsxNodes mr))"
proof (rule ccontr)
  let ?inds = "layoutColumnNodes (independentItems (mr_hooks mr)) Independent 80 80 50"
  let ?sts = "layoutColumnNodes (stateItems (mr_hooks mr)) State 300 80 40"
  let ?effs = "layoutColumnNodes (effectItems (mr_effects mr) (mr_callbacks mr)) Effect 740 80 40"
  let ?jsxs = "layoutJsxByDepth (jsxLayoutItems (mr_jsxNodes mr)) 960"
  assume "e \<notin> set (jsxTreeEdges ?jsxs (mr_jsxNodes mr))"
  with assms(1) have "e \<in> set (dataEdges ?inds ?sts ?effs ?jsxs (mr_effects mr) (mr_callbacks mr))"
    by (simp add: edges_mapping)
  from dataEdges_source [OF this] obtain n where
    n: "n \<in> set ?inds \<or> n \<in> set ?sts \<or> n \<in> set ?effs" and "nodeId (edge_from e) = node_id n"
    by auto
  with assms(2) have "prefix ''jsx-'' (node_id n)" by simp
  moreover from n have "\<not> prefix ''jsx-'' (node_id n)"
    using column_ids_not_jsx [of n _ Independent] column_ids_not_jsx [of n _ State]
      column_ids_not_jsx [of n _ Effect] by blast
  ultimately show False by simp
qed

text \<open>
  C2 (as the code has it). The layout has an edge from the node of element \<open>p\<close> to the
  node of element \<open>c\<close> exactly when some element fact with identity \<open>c\<close> records the
  parent identity \<open>p\<close>, \<open>p\<close> is not empty and \<open>p\<close> is the identity of an element fact of
  the same mapping result; a fact with no parent identity, or with one that no element
  carries, gets no edge. Every edge that leaves an element node has kind \<open>flow\<close>, no
  label, an identity that is \<open>jsx-tree-\<close> followed by its two node identities, and ends
  at an element node; a sequential-flow edge has kind \<open>flow\<close> and no label as well, and
  an identity that starts with \<open>flow-\<close>.
\<close>

theorem structural_edges:
  "((\<exists>e \<in> set (edges (buildGraphFromMappingResult (Some mr))).
        nodeId (edge_from e) = ''jsx-'' @ p \<and> nodeId (edge_to e) = ''jsx-'' @ c)
      \<longleftrightarrow> (\<exists>j \<in> set (mr_jsxNodes mr). jsx_id j = c \<and> parentId j = Some p \<and> p \<noteq> []
             \<and> p \<in> jsx_id ` set (mr_jsxNodes mr)))
   \<and> (\<forall>e \<in> set (edges (buildGraphFromMappingResult (Some mr))).
         prefix ''jsx-'' (nodeId (edge_from e)) \<longrightarrow>
           edge_kind e = Flow \<and> edge_label e = None
           \<and> edge_id e = ''jsx-tree-'' @ nodeId (edge_from e) @ ''-'' @ nodeId (edge_to e)
           \<and> prefix ''jsx-'' (nodeId (edge_to e)))
   \<and> (\<forall>f \<in> set (edges (buildGraphFromMappingResult (Some mr))).
         leavesIndependentColumn f \<longrightarrow> edge_label f = None \<and> prefix ''flow-'' (edge_id f))"
proof (intro conjI ballI impI iffI)
  let ?L = "buildGraphFromMappingResult (Some mr)"
  let ?js = "mr_jsxNodes mr"
  let ?trees = "jsxTreeEdges (layoutJsxByDepth (jsxLayoutItems ?js) 960) ?js"
  {
    assume "\<exists>e \<in> set (edges ?L). nodeId (edge_from e) = ''jsx-'' @ p \<and> nodeId (edge_to e) = ''jsx-'' @ c"
    then obtain e where e: "e \<in> set (edges ?L)" "nodeId (edge_from e) = ''jsx-'' @ p"
      "nodeId (edge_to e) = ''jsx-'' @ c" by blast
    from e(2) have "prefix ''jsx-'' (nodeId (edge_from e))" by simp
    from element_source_mapping [OF e(1) this] have "e \<in> set ?trees" .
    from structural_edge_origin [OF this] e(2,3)
    show "\<exists>j \<in> set ?js. jsx_id j = c \<and> parentId j = Some p \<and> p \<noteq> [] \<and> p \<in> jsx_id ` set ?js"
      by auto
  }
  {
    assume "\<exists>j \<in> set ?js. jsx_id j = c \<and> parentId j = Some p \<and> p \<noteq> [] \<and> p \<in> jsx_id ` set ?js"
    then obtain j where j: "j \<in> set ?js" "jsx_id j = c" "parentId j = Some p" "p \<noteq> []"
      "p \<in> jsx_id ` set ?js" by blast
    from structural_edge_present [OF j(1,3,4,5), of 960] j(2)
    show "\<exists>e \<in> set (edges ?L). nodeId (edge_from e) = ''jsx-'' @ p \<and> nodeId (edge_to e) = ''jsx-'' @ c"
      unfolding edges_mapping by auto
  }
  {
    fix e assume e: "e \<in> set (edges ?L)" "prefix ''jsx-'' (nodeId (edge_from e))"
    from element_source_mapping [OF this] have t: "e \<in> set ?trees" .
    then obtain j where "treeEdge (jsxNodeMap (layoutJsxByDepth (jsxLayoutItems ?js) 960)) j = Some e"
      unfolding jsxTreeEdges_def in_set_pushEach by blast
    from treeEdge_SomeD [OF this] obtain pn cn where
      "e = mkEdge (''jsx-tree-'' @ node_id pn @ ''-'' @ node_id cn) pn cn Flow None" by blast
    then show "edge_kind e = Flow" "edge_label e = None"
      "edge_id e = ''jsx-tree-'' @ nodeId (edge_from e) @ ''-'' @ nodeId (edge_to e)"
      by simp_all
    from structural_edge_origin [OF t] show "prefix ''jsx-'' (nodeId (edge_to e))" by auto
  }
  {
    fix f assume "f \<in> set (edges ?L)" "leavesIndependentColumn f"
    from sequential_edge_shape [OF this]
    show "edge_label f = None" "prefix ''flow-'' (edge_id f)" by simp_all
  }
qed

theorem structural_edges_witness:
  "(\<exists>e \<in> set (edges (buildGraphFromMappingResult (Some counterMapping))).
      nodeId (edge_from e) = ''jsx-jsx-1'' \<and> nodeId (edge_to e) = ''jsx-jsx-2'')
   \<and> \<not> (\<exists>e \<in> set (edges (buildGraphFromMappingResult (Some counterMapping))).
      nodeId (edge_from e) = ''jsx-jsx-3'' \<and> nodeId (edge_to e) = ''jsx-jsx-1'')"
proof -
  have yes: "\<exists>j \<in> set (mr_jsxNodes counterMapping). jsx_id j = ''jsx-2''
      \<and> parentId j = Some ''jsx-1'' \<and> ''jsx-1'' \<noteq> []
      \<and> ''jsx-1'' \<in> jsx_id ` set (mr_jsxNodes counterMapping)"
    by (simp add: counterMapping_def)
  have no: "\<not> (\<exists>j \<in> set (mr_jsxNodes counterMapping). jsx_id j = ''jsx-1''
      \<and> parentId j = Some ''jsx-3'' \<and> ''jsx-3'' \<noteq> []
      \<and> ''jsx-3'' \<in> jsx_id ` set (mr_jsxNodes counterMapping))"
    by (simp add: counterMapping_def)
  from structural_edges [of counterMapping "''jsx-1''" "''jsx-2''"] yes
  have 1: "\<exists>e \<in> set (edges (buildGraphFromMappingResult (Some counterMapping))).
      nodeId (edge_from e) = ''jsx-jsx-1'' \<and> nodeId (edge_to e) = ''jsx-jsx-2''" by simp
  from structural_edges [of counterMapping "''jsx-3''" "''jsx-1''"] no
  have 2: "\<not> (\<exists>e \<in> set (edges (buildGraphFromMappingResult (Some counterMapping))).
      nodeId (edge_from e) = ''jsx-jsx-3'' \<and> nodeId (edge_to e) = ''jsx-jsx-1'')" by simp
  from 1 2 show ?thesis by blast
qed

text \<open>
  In the counter component the three structural edges have the same kind and the same
  (absent) label as the three sequential-flow edges; an edge has no other field than its
  identity, its endpoints, its kind and its label.
\<close>

theorem structural_edge_counterexample:
  "map (\<lambda>e. (edge_id e, edge_kind e, edge_label e))
     (filter (\<lambda>e. edge_kind e = Flow) (edges (buildGraphFromMappingResult (Some counterMapping))))
     = [(''flow-independent-hook-3-state-hook-1'', Flow, None),
        (''flow-independent-hook-4-state-hook-2'', Flow, None),
        (''flow-independent-hook-5-state-hook-2'', Flow, None),
        (''jsx-tree-jsx-jsx-1-jsx-jsx-2'', Flow, None),
        (''jsx-tree-jsx-jsx-2-jsx-jsx-3'', Flow, None),
        (''jsx-tree-jsx-jsx-1-jsx-jsx-4'', Flow, None)]"
  by code_simp

subsection \<open>No dangling edges\<close>

text \<open>
  C8. Whatever the input, both endpoints of every edge of the produced layout carry the
  identity of a node of that layout.
\<close>

theorem no_dangling_edges:
  "(\<forall>e \<in> set (edges (buildGraphFromMappingResult m)).
      nodeId (edge_from e) \<in> node_id ` set (nodes (buildGraphFromMappingResult m))
      \<and> nodeId (edge_to e) \<in> node_id ` set (nodes (buildGraphFromMappingResult m)))
   \<and> (\<forall>e \<in> set (edges (buildGraphFromAnalysis a)).
      nodeId (edge_from e) \<in> node_id ` set (nodes (buildGraphFromAnalysis a))
      \<and> nodeId (edge_to e) \<in> node_id ` set (nodes (buildGraphFromAnalysis a)))"
  using no_dangling_mapping [of _ m] no_dangling_analysis [of _ a] by blast

theorem no_dangling_edges_witness:
  "length (edges (buildGraphFromMappingResult (Some counterMapping))) = 10
   \<and> nodeId (edge_from (edges (buildGraphFromMappingResult (Some counterMapping)) ! 9))
       \<in> node_id ` set (nodes (buildGraphFromMappingResult (Some counterMapping)))
   \<and> nodeId (edge_to (edges (buildGraphFromMappingResult (Some counterMapping)) ! 9))
       \<in> node_id ` set (nodes (buildGraphFromMappingResult (Some counterMapping)))
   \<and> length (edges (buildGraphFromAnalysis (Some counterAnalysis))) = 7
   \<and> nodeId (edge_from (edges (buildGraphFromAnalysis (Some counterAnalysis)) ! 6))
       \<in> node_id ` set (nodes (buildGraphFromAnalysis (Some counterAnalysis)))
   \<and> nodeId (edge_to (edges (buildGraphFromAnalysis (Some counterAnalysis)) ! 6))
       \<in> node_id ` set (nodes (buildGraphFromAnalysis (Some counterAnalysis)))"
proof -
  have m: "length (edges (buildGraphFromMappingResult (Some counterMapping))) = 10"
    by code_simp
  have a: "length (edges (buildGraphFromAnalysis (Some counterAnalysis))) = 7"
    by code_simp
  from m have "edges (buildGraphFromMappingResult (Some counterMapping)) ! 9
      \<in> set (edges (buildGraphFromMappingResult (Some counterMapping)))" by simp
  moreover from a have "edges (buildGraphFromAnalysis (Some counterAnalysis)) ! 6
      \<in> set (edges (buildGraphFromAnalysis (Some counterAnalysis)))" by simp
  ultimately show ?thesis
    using m a no_dangling_edges [of "Some counterMapping" "Some counterAnalysis"] by blast
qed

subsection \<open>The empty layout\<close>

text \<open>
  C9. Given an absent analysis, either assembler returns the layout with no nodes and no
  edges, the five column positions 80, 300, 520, 740 and 960, width 1160 (the last column
  plus 200) and height 800.
\<close>

theorem absent_analysis_layout:
  "buildGraphFromMappingResult None =
     \<lparr>nodes = [], edges = [], width = 1160, height = 800,
      colX = \<lparr>col_independent = 80, col_state = 300, col_variable = 520,
               col_effect = 740, col_jsx = 960\<rparr>\<rparr>
   \<and> buildGraphFromAnalysis None =
     \<lparr>nodes = [], edges = [], width = 1160, height = 800,
      colX = \<lparr>col_independent = 80, col_state = 300, col_variable = 520,
               col_effect = 740, col_jsx = 960\<rparr>\<rparr>"
  by (simp add: buildGraphFromMappingResult_def buildGraphFromAnalysis_def emptyLayout_def
      buildColumnX_def)

subsection \<open>The element tree of three nested elements\<close>

text \<open>
  C1. For the component whose markup is \<open><div><span><b/></span></div>\<close> the element
  tree walk records four facts, not three: the grandchild \<open>b\<close> is visited twice, once
  from its parent at depth 2 and once more from the root's own traversal at depth 1. The
  layout built from that analysis has four element nodes and no edge between them. Given
  the three facts the walk is meant to record, with their parent identities, the depth
  layout has three element nodes and exactly the two structural edges.
\<close>

theorem three_nested_elements_give_four_facts:
  "analyzeJsxTree threeNestedBody [] =
     [\<lparr>jsx_id = ''jsx-1'', component = ''div'', depth = 0, props = []\<rparr>,
      \<lparr>jsx_id = ''jsx-2'', component = ''span'', depth = 1, props = []\<rparr>,
      \<lparr>jsx_id = ''jsx-3'', component = ''b'', depth = 2, props = []\<rparr>,
      \<lparr>jsx_id = ''jsx-4'', component = ''b'', depth = 1, props = []\<rparr>]
   \<and> map node_id (nodes (buildGraphFromAnalysis (Some threeNestedAnalysis)))
       = [''jsx-jsx-1'', ''jsx-jsx-2'', ''jsx-jsx-3'', ''jsx-jsx-4'']
   \<and> edges (buildGraphFromAnalysis (Some threeNestedAnalysis)) = []
   \<and> map node_id (nodes (buildGraphFromMappingResult (Some threeNestedMapping)))
       = [''jsx-jsx-1'', ''jsx-jsx-2'', ''jsx-jsx-3'']
   \<and> map (\<lambda>e. (nodeId (edge_from e), nodeId (edge_to e)))
         (edges (buildGraphFromMappingResult (Some threeNestedMapping)))
       = [(''jsx-jsx-1'', ''jsx-jsx-2''), (''jsx-jsx-2'', ''jsx-jsx-3'')]"
  by code_simp

subsection \<open>Edge identities\<close>

text \<open>
  C10. An effect whose dependency array is \<open>[count, count]\<close> keeps both entries (the
  effect's dependencies are not de-duplicated, unlike a callback's), and the assembler
  gives the two dependency edges one and the same identity.
\<close>

theorem repeated_dependency_repeats_edge_id:
  "repeatedDepWalk \<noteq> Inl TypeError
   \<and> map dep_name (concat (map dependencies (ca_effects repeatedDepAnalysis))) = [''count'', ''count'']
   \<and> map edge_id (edges (buildGraphFromAnalysis (Some repeatedDepAnalysis))) =
       [''dep-state-hook-1-effect-effect-1-count'', ''dep-state-hook-1-effect-effect-1-count'']
   \<and> \<not> distinct (map edge_id (edges (buildGraphFromAnalysis (Some repeatedDepAnalysis))))"
  by code_simp

end
